theory Spec2Isabelle
  imports Main "HOL-Library.AList" "HOL-Library.Char_ord" "HOL-Library.List_Lexorder"
begin

section \<open>Python values\<close>

text \<open>
  The snapshots, hook results and record fields of wolo are dynamically typed Python
  values. \<open>pyval\<close> holds the values that reach the functions verified here: \<open>None\<close>,
  booleans, unbounded integers, strings, lists, tuples and dicts with string keys. A dict
  is the list of its items in insertion order (the keys of a dict are distinct).
  Floats are left out.
\<close>

datatype pyval =
    PNone
  | PBool bool
  | PInt int
  | PStr string
  | PList "pyval list"
  | PTuple "pyval list"
  | PDict "(string \<times> pyval) list"

text \<open>\<open>bool(x)\<close>: the truth value Python gives a value.\<close>

fun truthy :: "pyval \<Rightarrow> bool" where
  "truthy PNone = False"
| "truthy (PBool b) = b"
| "truthy (PInt i) = (i \<noteq> 0)"
| "truthy (PStr s) = (s \<noteq> [])"
| "truthy (PList xs) = (xs \<noteq> [])"
| "truthy (PTuple xs) = (xs \<noteq> [])"
| "truthy (PDict kvs) = (kvs \<noteq> [])"

text \<open>
  \<open>a == b\<close>: \<open>True\<close> and \<open>False\<close> are the integers 1 and 0, a list never equals
  a tuple, two dicts are equal when they have the same keys with equal values, in any
  order.
\<close>

fun py_eq :: "pyval \<Rightarrow> pyval \<Rightarrow> bool" where
  "py_eq PNone PNone = True"
| "py_eq (PBool a) (PBool b) = (a = b)"
| "py_eq (PBool a) (PInt j) = ((if a then 1 else 0) = j)"
| "py_eq (PInt i) (PBool b) = (i = (if b then 1 else 0))"
| "py_eq (PInt i) (PInt j) = (i = j)"
| "py_eq (PStr s) (PStr t) = (s = t)"
| "py_eq (PList xs) (PList ys) = list_all2 py_eq xs ys"
| "py_eq (PTuple xs) (PTuple ys) = list_all2 py_eq xs ys"
| "py_eq (PDict a) (PDict b) =
     (length a = length b \<and>
      (\<forall>(k, v) \<in> set a. case map_of b k of None \<Rightarrow> False | Some w \<Rightarrow> py_eq v w))"
| "py_eq _ _ = False"

text \<open>The exceptions that the modelled code raises or lets through.\<close>

datatype exn =
    TypeError
  | Warning "string list"
  | HookError string
  | Unmodelled

text \<open>
  Iterating over a value (\<open>for x in v\<close>, \<open>all(v)\<close>): lists and tuples give their
  elements, a string its characters, a dict its keys; \<open>None\<close>, booleans and integers are
  not iterable.
\<close>

fun py_iter :: "pyval \<Rightarrow> exn + pyval list" where
  "py_iter (PList xs) = Inr xs"
| "py_iter (PTuple xs) = Inr xs"
| "py_iter (PStr s) = Inr (map (\<lambda>c. PStr [c]) s)"
| "py_iter (PDict kvs) = Inr (map (\<lambda>kv. PStr (fst kv)) kvs)"
| "py_iter _ = Inl TypeError"

text \<open>\<open>all(v)\<close>.\<close>

definition py_all :: "pyval \<Rightarrow> exn + bool" where
  "py_all v = (case py_iter v of Inl e \<Rightarrow> Inl e | Inr xs \<Rightarrow> Inr (list_all truthy xs))"

text \<open>
  Building a dict from items, one \<open>d[k] = v\<close> at a time: a key already present keeps
  its place and takes the new value, a new key goes to the end.
\<close>

definition py_dict :: "(string \<times> 'v) list \<Rightarrow> (string \<times> 'v) list" where
  "py_dict items = fold (\<lambda>kv d. AList.update (fst kv) (snd kv) d) items []"

section \<open>Parameters\<close>

text \<open>
  A \<open>Parameter\<close> object: its name, its value and its snapshot \<open>_log_value\<close>. The
  variants differ in how the snapshot is computed from the state of the world \<open>'w\<close> (the
  file system, the source code); \<open>p_refresh\<close> is that computation.
\<close>

record 'w param =
  p_name :: string
  p_value :: pyval
  p_log_value :: pyval
  p_refresh :: "'w \<Rightarrow> pyval"

text \<open>
  Modelled from the spec: \<open>Parameter._update\<close> (wolo/parameters.py is not part of the
  sources), "an operation to refresh log_value from current state".
\<close>

definition Parameter_update :: "'w \<Rightarrow> 'w param \<Rightarrow> 'w param" where
  "Parameter_update w p = p\<lparr>p_log_value := p_refresh p w\<rparr>"

text \<open>
  Modelled from the spec: the constructor \<open>Parameter(name, value)\<close> of the plain
  variant (wolo/parameters.py is not part of the sources), "plain (log_value = value)".
\<close>

definition Parameter :: "string \<Rightarrow> pyval \<Rightarrow> 'w param" where
  "Parameter n v = \<lparr>p_name = n, p_value = v, p_log_value = v, p_refresh = (\<lambda>w. v)\<rparr>"

text \<open>
  What a hook hands back where a list of parameters is expected: \<open>None\<close> (a hook whose
  body is \<open>pass\<close>) or a list of \<open>Parameter\<close> objects.
\<close>

datatype 'w para_ret = RetNone | RetList "'w param list"

section \<open>Log records\<close>

text \<open>
  \<open>TaskLog\<close> (wolo/log.py): the persisted outcome of one task. The three mappings are
  dicts from parameter names to snapshots.
\<close>

record tasklog =
  index :: pyval
  task_class :: pyval
  inputs :: "(string \<times> pyval) list"
  outputs :: "(string \<times> pyval) list"
  last_run_success :: pyval
  info :: "(string \<times> pyval) list"

text \<open>\<open>TaskLog(index, task_class)\<close> with the defaults of \<open>__init__\<close>.\<close>

definition TaskLog_init :: "pyval \<Rightarrow> pyval \<Rightarrow> tasklog" where
  "TaskLog_init i c =
     \<lparr>index = i, task_class = c, inputs = [], outputs = [], last_run_success = PNone, info = []\<rparr>"

section \<open>Tasks\<close>

text \<open>
  A task object: the arguments it was built with, its processed parameter sets and the
  report of its last action. The hooks of the user's subclass are functions of the object
  and the world; each returns normally (\<open>Inr\<close>) or raises (\<open>Inl\<close>), and may change the
  world.
\<close>

record 'w task_obj =
  args :: "pyval list"
  kwargs :: "(string \<times> pyval) list"
  t_inputs :: "'w param list"
  t_outputs :: "'w param list"
  report :: "pyval option"

record 'w task_cls =
  cls_name :: string
  h_before :: "'w task_obj \<Rightarrow> 'w \<Rightarrow> exn option \<times> 'w"
  h_input :: "'w task_obj \<Rightarrow> 'w \<Rightarrow> (exn + 'w para_ret) \<times> 'w"
  h_output :: "'w task_obj \<Rightarrow> 'w \<Rightarrow> (exn + 'w para_ret) \<times> 'w"
  h_action :: "'w task_obj \<Rightarrow> 'w \<Rightarrow> (exn + pyval) \<times> 'w"
  h_success :: "'w task_obj \<Rightarrow> 'w \<Rightarrow> (exn + pyval) \<times> 'w"
  h_after :: "'w task_obj \<Rightarrow> 'w \<Rightarrow> (exn + 'w para_ret) \<times> 'w"

text \<open>The inherited \<open>Task.before\<close> and \<open>Task.after\<close>: \<open>pass\<close>, so they return \<open>None\<close>.\<close>

definition Task_before :: "'w task_obj \<Rightarrow> 'w \<Rightarrow> exn option \<times> 'w" where
  "Task_before slf w = (None, w)"

definition Task_after :: "'w task_obj \<Rightarrow> 'w \<Rightarrow> (exn + 'w para_ret) \<times> 'w" where
  "Task_after slf w = (Inr RetNone, w)"

text \<open>
  The state a run works on: the world, the task object, and the hooks called so far, in
  order (the trace is the model's own record of the calls; \<open>print\<close> is left out).
\<close>

datatype hook = Before | Input | Output | Action | Success | After

record 'w state =
  world :: 'w
  self :: "'w task_obj"
  calls :: "hook list"

text \<open>
  \<open>Task._process\<close>. \<open>conv\<close> stands for \<open>helper.convert_dict_to_namedtuple\<close>, which is
  not part of the sources: it receives the dict \<open>{para.name: para}\<close> and gives the
  collection that the task iterates over, or raises.
\<close>

type_synonym 'w conv = "(string \<times> 'w param) list \<Rightarrow> exn + 'w param list"

fun Task_process :: "'w conv \<Rightarrow> 'w para_ret \<Rightarrow> exn + 'w param list" where
  "Task_process conv RetNone = Inl TypeError"
| "Task_process conv (RetList para_list) =
     (let name_list = map p_name para_list in
      if \<not> (card (set name_list) = length name_list) then Inl (Warning name_list)
      else conv (py_dict (map (\<lambda>para. (p_name para, para)) para_list)))"

text \<open>\<open>Task._check\<close>: the loop over \<open>para_dic\<close> with its flag \<open>changed\<close>.\<close>

fun check_loop :: "bool \<Rightarrow> 'w param list \<Rightarrow> (string \<times> pyval) list \<Rightarrow> bool" where
  "check_loop changed [] old_values = changed"
| "check_loop changed (para # rest) old_values =
     (case map_of old_values (p_name para) of
        Some old_value \<Rightarrow>
          (let log_value = (case p_log_value para of PTuple xs \<Rightarrow> PList xs | v \<Rightarrow> v) in
           if \<not> py_eq log_value old_value then check_loop True rest old_values
           else check_loop changed rest old_values)
      | None \<Rightarrow> check_loop True rest old_values)"

definition Task_check :: "'w param list \<Rightarrow> (string \<times> pyval) list \<Rightarrow> bool" where
  "Task_check para_dic old_values = check_loop False para_dic old_values"

text \<open>
  \<open>Task._rebuild\<close>: every parameter is updated in place, then the dict of the snapshots
  is built. The updated parameters are returned with the dict.
\<close>

definition Task_rebuild ::
  "'w \<Rightarrow> 'w param list \<Rightarrow> 'w param list \<times> (string \<times> pyval) list" where
  "Task_rebuild w para_dic =
     (let paras = map (Parameter_update w) para_dic in
      (paras, py_dict (map (\<lambda>para. (p_name para, p_log_value para)) paras)))"

text \<open>
  \<open>Task._rerun\<close>. The record \<open>log\<close> is changed in place and returned; when an exception
  leaves the method, \<open>Inl\<close> carries it with the record as it stands at that moment.
\<close>

type_synonym 'w result = "(exn \<times> tasklog \<times> 'w state) + (tasklog \<times> 'w state)"

definition Task_rerun :: "'w conv \<Rightarrow> 'w task_cls \<Rightarrow> tasklog \<Rightarrow> 'w state \<Rightarrow> 'w result" where
  "Task_rerun conv C log st =
     (case h_action C (self st) (world st) of
        (Inl e, w1) \<Rightarrow> Inl (e, log, st\<lparr>world := w1, calls := calls st @ [Action]\<rparr>)
      | (Inr r, w1) \<Rightarrow>
          (let self1 = (self st)\<lparr>report := Some r\<rparr> in
           case h_success C self1 w1 of
             (Inl e, w2) \<Rightarrow>
               Inl (e, log, \<lparr>world = w2, self = self1, calls = calls st @ [Action, Success]\<rparr>)
           | (Inr sv, w2) \<Rightarrow>
               (case py_all sv of
                  Inl e \<Rightarrow>
                    Inl (e, log,
                         \<lparr>world = w2, self = self1, calls = calls st @ [Action, Success]\<rparr>)
                | Inr success_all \<Rightarrow>
                    (case h_after C self1 w2 of
                       (Inl e, w3) \<Rightarrow>
                         Inl (e, log,
                              \<lparr>world = w3, self = self1,
                               calls = calls st @ [Action, Success, After]\<rparr>)
                     | (Inr ar, w3) \<Rightarrow>
                         (case Task_process conv ar of
                            Inl e \<Rightarrow>
                              Inl (e, log,
                                   \<lparr>world = w3, self = self1,
                                    calls = calls st @ [Action, Success, After]\<rparr>)
                          | Inr info_paras \<Rightarrow>
                              (let log1 = log\<lparr>info := snd (Task_rebuild w3 info_paras)\<rparr> in
                               if success_all = True then
                                 (let (ins, in_d) = Task_rebuild w3 (t_inputs self1);
                                      (outs, out_d) = Task_rebuild w3 (t_outputs self1)
                                  in Inr (log1\<lparr>inputs := in_d, outputs := out_d,
                                               last_run_success := PBool True\<rparr>,
                                          \<lparr>world = w3,
                                           self = self1\<lparr>t_inputs := ins, t_outputs := outs\<rparr>,
                                           calls = calls st @ [Action, Success, After]\<rparr>))
                               else
                                 Inr (log1\<lparr>last_run_success := PBool False\<rparr>,
                                      \<lparr>world = w3, self = self1,
                                       calls = calls st @ [Action, Success, After]\<rparr>)))))))"

text \<open>\<open>Task._run\<close>.\<close>

definition Task_run :: "'w conv \<Rightarrow> 'w task_cls \<Rightarrow> tasklog \<Rightarrow> 'w state \<Rightarrow> 'w result" where
  "Task_run conv C log st =
     (let inputs_changed = Task_check (t_inputs (self st)) (inputs log);
          outputs_changed = Task_check (t_outputs (self st)) (outputs log)
      in if inputs_changed = True \<or> outputs_changed = True \<or> last_run_success log \<noteq> PBool True
         then Task_rerun conv C log st
         else Inr (log, st))"

text \<open>
  \<open>Task.__init__\<close>. It returns the new object's state, or the exception that ends the
  construction, with the world and the hooks called up to there.
\<close>

definition py_add_list :: "'w para_ret \<Rightarrow> 'w param list \<Rightarrow> exn + 'w para_ret" where
  "py_add_list r ps = (case r of RetNone \<Rightarrow> Inl TypeError | RetList xs \<Rightarrow> Inr (RetList (xs @ ps)))"

definition Task_init ::
  "'w conv \<Rightarrow> 'w task_cls \<Rightarrow> pyval list \<Rightarrow> (string \<times> pyval) list \<Rightarrow> 'w \<Rightarrow>
   (exn \<times> 'w \<times> hook list) + 'w state" where
  "Task_init conv C as kws w =
     (let name_par = Parameter ''name_'' (PStr (cls_name C));
          args_par = Parameter ''args_'' (PTuple as);
          kwargs_par = Parameter ''kwargs_'' (PDict kws);
          self0 = \<lparr>args = as, kwargs = kws, t_inputs = [], t_outputs = [], report = None\<rparr>
      in case h_before C self0 w of
           (Some e, w1) \<Rightarrow> Inl (e, w1, [Before])
         | (None, w1) \<Rightarrow>
             (case h_input C self0 w1 of
                (Inl e, w2) \<Rightarrow> Inl (e, w2, [Before, Input])
              | (Inr ir, w2) \<Rightarrow>
                  (case py_add_list ir [name_par, args_par, kwargs_par] of
                     Inl e \<Rightarrow> Inl (e, w2, [Before, Input])
                   | Inr il \<Rightarrow>
                       (case Task_process conv il of
                          Inl e \<Rightarrow> Inl (e, w2, [Before, Input])
                        | Inr ins \<Rightarrow>
                            (let self1 = self0\<lparr>t_inputs := ins\<rparr> in
                             case h_output C self1 w2 of
                               (Inl e, w3) \<Rightarrow> Inl (e, w3, [Before, Input, Output])
                             | (Inr orr, w3) \<Rightarrow>
                                 (case Task_process conv orr of
                                    Inl e \<Rightarrow> Inl (e, w3, [Before, Input, Output])
                                  | Inr outs \<Rightarrow>
                                      Inr \<lparr>world = w3, self = self1\<lparr>t_outputs := outs\<rparr>,
                                           calls = [Before, Input, Output]\<rparr>))))))"

text \<open>The state in which a run ends, and the hooks it has called since \<open>st\<close>.\<close>

definition final_state :: "'w result \<Rightarrow> 'w state" where
  "final_state r = (case r of Inl (e, l, s) \<Rightarrow> s | Inr (l, s) \<Rightarrow> s)"

definition invoked :: "'w state \<Rightarrow> 'w result \<Rightarrow> hook list" where
  "invoked st r = drop (length (calls st)) (calls (final_state r))"

text \<open>
  Fixtures: a namedtuple that iterates over the parameters of the dict in order, and a task
  class over a world that holds one integer (the modification time of a file), with
  the given inputs (one of them read from the world) and one output.
\<close>

definition values_conv :: "'w conv" where
  "values_conv d = Inr (map snd d)"

definition mtime_par :: "int param" where
  "mtime_par = \<lparr>p_name = ''infile'', p_value = PStr ''in.txt'',
                p_log_value = PList [PStr ''in.txt'', PInt 7],
                p_refresh = (\<lambda>w. PList [PStr ''in.txt'', PInt w])\<rparr>"

definition demo_cls :: "int param list \<Rightarrow> pyval \<Rightarrow> int para_ret \<Rightarrow> int task_cls" where
  "demo_cls ins sv ar =
     \<lparr>cls_name = ''Demo'',
      h_before = Task_before,
      h_input = (\<lambda>slf w. (Inr (RetList ins), w)),
      h_output = (\<lambda>slf w. (Inr (RetList [Parameter ''out'' (PInt 0)]), w)),
      h_action = (\<lambda>slf w. (Inr (PStr ''done''), w + 1)),
      h_success = (\<lambda>slf w. (Inr sv, w)),
      h_after = (\<lambda>slf w. (Inr ar, w))\<rparr>"

definition demo_obj :: "int task_obj" where
  "demo_obj = \<lparr>args = [], kwargs = [], t_inputs = [mtime_par],
               t_outputs = [Parameter ''out'' (PInt 0)], report = None\<rparr>"

definition demo_state :: "int state" where
  "demo_state = \<lparr>world = 7, self = demo_obj, calls = [Before, Input, Output]\<rparr>"

definition demo_log :: "pyval \<Rightarrow> tasklog" where
  "demo_log lrs =
     \<lparr>index = PTuple [PInt 0], task_class = PStr ''Demo'',
      inputs = [(''infile'', PList [PStr ''in.txt'', PInt 7])],
      outputs = [(''out'', PInt 0)],
      last_run_success = lrs, info = []\<rparr>"

text \<open>The names of the three reserved provenance parameters of \<open>Task.__init__\<close>.\<close>

definition reserved_names :: "string list" where
  "reserved_names = [''name_'', ''args_'', ''kwargs_'']"

text \<open>A fixture with the given inputs and outputs.\<close>

definition io_cls :: "int param list \<Rightarrow> int param list \<Rightarrow> int task_cls" where
  "io_cls ins outs =
     (demo_cls ins (PList []) (RetList []))\<lparr>h_output := (\<lambda>slf w. (Inr (RetList outs), w))\<rparr>"

section \<open>The log store\<close>

text \<open>
  The log file holds a JSON document. \<open>json_dump\<close> is \<open>json.dump\<close> with
  \<open>sort_keys=True\<close>: lists and tuples both become arrays, the items of a dict are written
  in the order of their keys. \<open>json_load\<close> is \<open>json.load\<close>: arrays become lists, objects
  dicts. The text of the file (indentation, encoding) is not modelled.
\<close>

datatype json =
    JNull
  | JBool bool
  | JInt int
  | JStr string
  | JArr "json list"
  | JObj "(string \<times> json) list"

fun json_dump :: "pyval \<Rightarrow> json" where
  "json_dump PNone = JNull"
| "json_dump (PBool b) = JBool b"
| "json_dump (PInt i) = JInt i"
| "json_dump (PStr s) = JStr s"
| "json_dump (PList xs) = JArr (map json_dump xs)"
| "json_dump (PTuple xs) = JArr (map json_dump xs)"
| "json_dump (PDict kvs) = JObj (sort_key fst (map (\<lambda>(k, v). (k, json_dump v)) kvs))"

fun json_load :: "json \<Rightarrow> pyval" where
  "json_load JNull = PNone"
| "json_load (JBool b) = PBool b"
| "json_load (JInt i) = PInt i"
| "json_load (JStr s) = PStr s"
| "json_load (JArr xs) = PList (map json_load xs)"
| "json_load (JObj kvs) = PDict (py_dict (map (\<lambda>(k, j). (k, json_load j)) kvs))"

text \<open>
  A nested Python list whose leaves are of one kind: the task tree, the log tree, the
  tree of dicts that is written to the file.
\<close>

datatype 'a tree = Leaf 'a | Group "'a tree list"

text \<open>
  \<open>_recursive_iterate_log(L, func)\<close>, with the generator run to its end by \<open>list\<close>: an
  element that is a list is iterated recursively, \<open>func\<close> is applied to any other; an
  exception of \<open>func\<close> ends the iteration.
\<close>

fun recursive_iterate_log :: "('a \<Rightarrow> exn + 'b) \<Rightarrow> 'a tree list \<Rightarrow> exn + 'b tree list" where
  "recursive_iterate_log func [] = Inr []"
| "recursive_iterate_log func (Group xs # rest) =
     (case recursive_iterate_log func xs of
        Inl e \<Rightarrow> Inl e
      | Inr ys \<Rightarrow>
          (case recursive_iterate_log func rest of
             Inl e \<Rightarrow> Inl e
           | Inr zs \<Rightarrow> Inr (Group ys # zs)))"
| "recursive_iterate_log func (Leaf x # rest) =
     (case func x of
        Inl e \<Rightarrow> Inl e
      | Inr y \<Rightarrow>
          (case recursive_iterate_log func rest of
             Inl e \<Rightarrow> Inl e
           | Inr zs \<Rightarrow> Inr (Leaf y # zs)))"

text \<open>
  The test \<open>isinstance(i, (list, tuple))\<close> on a Python value, and the Python value of a
  tree of values.
\<close>

fun as_tree :: "pyval \<Rightarrow> pyval tree" where
  "as_tree (PList xs) = Group (map as_tree xs)"
| "as_tree (PTuple xs) = Group (map as_tree xs)"
| "as_tree v = Leaf v"

fun of_tree :: "pyval tree \<Rightarrow> pyval" where
  "of_tree (Leaf v) = v"
| "of_tree (Group ts) = PList (map of_tree ts)"

text \<open>\<open>dict(x)\<close> for a \<open>TaskLog\<close> \<open>x\<close>: the attributes in the order \<open>__init__\<close> sets them.\<close>

definition TaskLog_dict :: "tasklog \<Rightarrow> pyval" where
  "TaskLog_dict x =
     PDict [(''index'', index x), (''task_class'', task_class x),
            (''inputs'', PDict (inputs x)), (''outputs'', PDict (outputs x)),
            (''last_run_success'', last_run_success x), (''info'', PDict (info x))]"

text \<open>
  \<open>TaskLog._from_dict\<close>, that is \<open>cls(**dict)\<close>: a \<open>TypeError\<close> unless the value is a
  dict whose keys are parameters of \<open>__init__\<close> and include \<open>index\<close> and \<open>task_class\<close>;
  the other attributes have defaults. The record type holds the three mappings as dicts,
  so a dict that gives one of them another kind of value is outside this model
  (\<open>Unmodelled\<close>; Python would store the value as it is).
\<close>

definition mapping_field :: "(string \<times> pyval) list \<Rightarrow> string \<Rightarrow> exn + (string \<times> pyval) list" where
  "mapping_field kvs k =
     (case map_of kvs k of
        None \<Rightarrow> Inr []
      | Some (PDict d) \<Rightarrow> Inr d
      | Some _ \<Rightarrow> Inl Unmodelled)"

definition TaskLog_from_dict :: "pyval \<Rightarrow> exn + tasklog" where
  "TaskLog_from_dict d =
     (case d of
        PDict kvs \<Rightarrow>
          if \<not> (\<forall>k \<in> set (map fst kvs).
                  k \<in> set [''index'', ''task_class'', ''inputs'', ''outputs'', ''info'',
                            ''last_run_success''])
          then Inl TypeError
          else
            (case (map_of kvs ''index'', map_of kvs ''task_class'') of
               (Some i, Some c) \<Rightarrow>
                 (case (mapping_field kvs ''inputs'', mapping_field kvs ''outputs'',
                        mapping_field kvs ''info'') of
                    (Inr ins, Inr outs, Inr nfo) \<Rightarrow>
                      Inr \<lparr>index = i, task_class = c, inputs = ins, outputs = outs,
                           last_run_success =
                             (case map_of kvs ''last_run_success'' of None \<Rightarrow> PNone | Some v \<Rightarrow> v),
                           info = nfo\<rparr>
                  | _ \<Rightarrow> Inl Unmodelled)
             | _ \<Rightarrow> Inl TypeError)
      | _ \<Rightarrow> Inl TypeError)"

text \<open>
  The \<open>Log\<close> object: the content of the file at \<open>_log_path\<close> (\<open>None\<close> when there is no
  such file) and the attribute \<open>_log\<close> (\<open>None\<close> until a log is loaded or set).
\<close>

record log_store =
  log_file :: "json option"
  cached_log :: "tasklog tree list option"

text \<open>
  \<open>json.dump\<close> and \<open>json.load\<close> raise on a document beyond a limit of the interpreter (an
  integer with more digits than it converts to or from text, a nesting deeper than its
  recursion limit). Which documents those are depends on the interpreter, so the store's
  operations take two functions, \<open>wlimit\<close> for writing and \<open>rlimit\<close> for reading, that give
  the exception for such a document and \<open>None\<close> for a document within the limits.
\<close>

type_synonym limit = "json \<Rightarrow> exn option"

text \<open>\<open>Log._load\<close>.\<close>

definition Log_load :: "limit \<Rightarrow> log_store \<Rightarrow> exn + tasklog tree list" where
  "Log_load rlimit S =
     (case log_file S of
        Some doc \<Rightarrow>
          (case rlimit doc of
             Some e \<Rightarrow> Inl e
           | None \<Rightarrow>
               (case py_iter (json_load doc) of
                  Inl e \<Rightarrow> Inl e
                | Inr temp_log \<Rightarrow>
                    recursive_iterate_log TaskLog_from_dict (map as_tree temp_log)))
      | None \<Rightarrow> Inr [])"

text \<open>The property \<open>Log.log\<close>: \<open>not self._log\<close> holds for \<open>None\<close> and for the empty list.\<close>

definition Log_log :: "limit \<Rightarrow> log_store \<Rightarrow> exn + (tasklog tree list \<times> log_store)" where
  "Log_log rlimit S =
     (case cached_log S of
        Some (x # xs) \<Rightarrow> Inr (x # xs, S)
      | _ \<Rightarrow>
          (case Log_load rlimit S of
             Inl e \<Rightarrow> Inl e
           | Inr l \<Rightarrow> Inr (l, S\<lparr>cached_log := Some l\<rparr>)))"

text \<open>
  \<open>Log._write\<close> and \<open>Log._set_log\<close>. When \<open>json.dump\<close> raises, the exception leaves the
  method and the model says nothing of the file.
\<close>

definition Log_write :: "limit \<Rightarrow> limit \<Rightarrow> log_store \<Rightarrow> exn + log_store" where
  "Log_write wlimit rlimit S =
     (case Log_log rlimit S of
        Inl e \<Rightarrow> Inl e
      | Inr (lg, S1) \<Rightarrow>
          (case recursive_iterate_log (\<lambda>x. Inr (TaskLog_dict x)) lg of
             Inl e \<Rightarrow> Inl e
           | Inr save_log \<Rightarrow>
               (let doc = json_dump (PList (map of_tree save_log)) in
                case wlimit doc of
                  Some e \<Rightarrow> Inl e
                | None \<Rightarrow> Inr (S1\<lparr>log_file := Some doc\<rparr>))))"

definition Log_set_log ::
  "limit \<Rightarrow> limit \<Rightarrow> tasklog tree list \<Rightarrow> log_store \<Rightarrow> exn + log_store" where
  "Log_set_log wlimit rlimit new_log S = Log_write wlimit rlimit (S\<lparr>cached_log := Some new_log\<rparr>)"

text \<open>Writing a log tree with the store, then loading the file.\<close>

definition write_then_load ::
  "limit \<Rightarrow> limit \<Rightarrow> tasklog tree list \<Rightarrow> log_store \<Rightarrow> exn + tasklog tree list" where
  "write_then_load wlimit rlimit t S =
     (case Log_set_log wlimit rlimit t S of Inl e \<Rightarrow> Inl e | Inr S' \<Rightarrow> Log_load rlimit S')"




text \<open>
  What the file makes of a value and of a record: the value, and each attribute, after
  \<open>json.dump\<close> and \<open>json.load\<close>.
\<close>

definition persisted :: "pyval \<Rightarrow> pyval" where
  "persisted v = json_load (json_dump v)"



text \<open>Values in which no tuple occurs and no dict has a key twice.\<close>

fun json_shaped :: "pyval \<Rightarrow> bool" where
  "json_shaped (PList xs) = (\<forall>x \<in> set xs. json_shaped x)"
| "json_shaped (PTuple xs) = False"
| "json_shaped (PDict kvs) = (distinct (map fst kvs) \<and> (\<forall>(k, v) \<in> set kvs. json_shaped v))"
| "json_shaped v = True"






text \<open>Values in which no dict has a key twice, as is the case of every Python dict.\<close>

fun dict_wf :: "pyval \<Rightarrow> bool" where
  "dict_wf (PList xs) = (\<forall>x \<in> set xs. dict_wf x)"
| "dict_wf (PTuple xs) = (\<forall>x \<in> set xs. dict_wf x)"
| "dict_wf (PDict kvs) = (distinct (map fst kvs) \<and> (\<forall>(k, v) \<in> set kvs. dict_wf v))"
| "dict_wf v = True"


text \<open>An interpreter without limits on the documents.\<close>

definition no_limit :: limit where
  "no_limit doc = None"

text \<open>
  Fixtures: the record \<open>demo_log\<close> with its index as a list, and a store whose file holds
  that record.
\<close>

definition list_log :: tasklog where
  "list_log = (demo_log (PBool True))\<lparr>index := PList [PInt 0]\<rparr>"

definition old_store :: log_store where
  "old_store = \<lparr>log_file = Some (json_dump (PList [TaskLog_dict list_log])), cached_log = None\<rparr>"

section \<open>The tree runner\<close>

text \<open>
  The tree runner \<open>run(tree, prior_log) -> (success, new_log)\<close> is in wolo/workflow.py,
  which is not part of the sources (only tests of its \<open>_run_tasks\<close> are); the definitions
  of this section are modelled from the algorithm of the spec's section 4.3, step by
  step. A leaf is any object with a run operation \<open>run1\<close>, which takes the prior record
  and the world and returns the new record or raises, and with an identity label;
  \<open>Task._run\<close> is such an operation. The state of the runner is the world and, as the
  model's own record, the positions of the leaves whose run has been invoked, in order.
\<close>

record 's rstate =
  rworld :: 's
  attempted :: "nat list list"

text \<open>
  Modelled from the spec: step 1 of the tree runner (wolo/workflow.py is missing), the
  previous entry at position \<open>i\<close> is "the element at index i of prior_log if prior_log is a
  sequence long enough to contain it, else an empty/unknown record" (\<open>None\<close> here).
\<close>

fun prev_entry :: "tasklog tree option \<Rightarrow> nat \<Rightarrow> tasklog tree option" where
  "prev_entry (Some (Group ls)) i = (if i < length ls then Some (ls ! i) else None)"
| "prev_entry _ i = None"

text \<open>
  Modelled from the spec: step 2 of the tree runner (wolo/workflow.py is missing), a
  sub-tree gets the previous entry as its prior log "only if that previous entry is also a
  sequence; otherwise recurse with no prior log".
\<close>

fun sub_prior :: "tasklog tree option \<Rightarrow> tasklog tree option" where
  "sub_prior (Some (Group ls)) = Some (Group ls)"
| "sub_prior _ = None"

text \<open>
  Modelled from the spec: step 3 of the tree runner (wolo/workflow.py is missing), a
  leaf's prior record "is the previous entry at i if that entry is a single record (not a
  sequence), else a fresh empty/unknown record".
\<close>

fun prior_record :: "tasklog tree option \<Rightarrow> tasklog \<Rightarrow> tasklog" where
  "prior_record (Some (Leaf r)) fresh = r"
| "prior_record _ fresh = fresh"

text \<open>
  Modelled from the spec: the index of a fresh record (built in the missing
  wolo/workflow.py), "its position path (sequence of integers) through the tree".
\<close>

definition index_of :: "nat list \<Rightarrow> pyval" where
  "index_of path = PTuple (map (\<lambda>n. PInt (int n)) path)"

text \<open>
  Modelled from the spec: the tree runner \<open>_run_tasks\<close> (wolo/workflow.py is missing),
  the algorithm of section 4.3 over the nodes from position \<open>i\<close> on, left to right. The
  sub-result's log, or the record a leaf returns, "becomes the new entry at i"; the
  successes "fold into the overall result via AND", a leaf counting as successful when
  its new \<open>last_run_success\<close> is \<open>True\<close>; an exception of a leaf's run propagates.
\<close>

fun run_tasks ::
  "('t \<Rightarrow> tasklog \<Rightarrow> 's \<Rightarrow> (exn + tasklog) \<times> 's) \<Rightarrow> ('t \<Rightarrow> pyval) \<Rightarrow> nat list \<Rightarrow>
   tasklog tree option \<Rightarrow> nat \<Rightarrow> 't tree list \<Rightarrow> 's rstate \<Rightarrow>
   (exn + bool \<times> tasklog tree list) \<times> 's rstate" where
  "run_tasks run1 label path prior i [] st = (Inr (True, []), st)"
| "run_tasks run1 label path prior i (Group children # rest) st =
     (case run_tasks run1 label (path @ [i]) (sub_prior (prev_entry prior i)) 0 children st of
        (Inl e, st1) \<Rightarrow> (Inl e, st1)
      | (Inr (ok1, sub_log), st1) \<Rightarrow>
          (case run_tasks run1 label path prior (Suc i) rest st1 of
             (Inl e, st2) \<Rightarrow> (Inl e, st2)
           | (Inr (ok2, entries), st2) \<Rightarrow> (Inr (ok1 \<and> ok2, Group sub_log # entries), st2)))"
| "run_tasks run1 label path prior i (Leaf task # rest) st =
     (case run1 task
             (prior_record (prev_entry prior i)
                (TaskLog_init (index_of (path @ [i])) (label task)))
             (rworld st) of
        (Inl e, w1) \<Rightarrow> (Inl e, \<lparr>rworld = w1, attempted = attempted st @ [path @ [i]]\<rparr>)
      | (Inr r, w1) \<Rightarrow>
          (case run_tasks run1 label path prior (Suc i) rest
                  \<lparr>rworld = w1, attempted = attempted st @ [path @ [i]]\<rparr> of
             (Inl e, st2) \<Rightarrow> (Inl e, st2)
           | (Inr (ok2, entries), st2) \<Rightarrow>
               (Inr (last_run_success r = PBool True \<and> ok2, Leaf r # entries), st2)))"

text \<open>
  Modelled from the spec: the contract \<open>run(tree, prior_log)\<close> of the tree runner
  (wolo/workflow.py is missing), the run of a whole tree against a prior log, from an
  empty trace.
\<close>

definition run_tree ::
  "('t \<Rightarrow> tasklog \<Rightarrow> 's \<Rightarrow> (exn + tasklog) \<times> 's) \<Rightarrow> ('t \<Rightarrow> pyval) \<Rightarrow>
   't tree list \<Rightarrow> tasklog tree option \<Rightarrow> 's \<Rightarrow> (exn + bool \<times> tasklog tree list) \<times> 's rstate" where
  "run_tree run1 label tree prior_log w =
     run_tasks run1 label [] prior_log 0 tree \<lparr>rworld = w, attempted = []\<rparr>"

text \<open>
  Two trees of the same shape: a leaf where the other has a leaf, a sequence of the same
  length where it has a sequence, and so on down.
\<close>

fun same_shape :: "'a tree \<Rightarrow> 'b tree \<Rightarrow> bool" where
  "same_shape (Leaf x) (Leaf y) = True"
| "same_shape (Group xs) (Group ys) = list_all2 same_shape xs ys"
| "same_shape _ _ = False"

text \<open>
  What the runner takes from the previous entry for a node: a record for a leaf, a
  sequence for a group, nothing from an entry of the other shape.
\<close>

fun usable :: "'t tree \<Rightarrow> tasklog tree option \<Rightarrow> tasklog tree option" where
  "usable (Leaf t) (Some (Leaf r)) = Some (Leaf r)"
| "usable (Group cs) (Some (Group ls)) = Some (Group ls)"
| "usable _ _ = None"

text \<open>The leaves of a tree from left to right, and their positions.\<close>

fun leaves :: "'a tree \<Rightarrow> 'a list" where
  "leaves (Leaf x) = [x]"
| "leaves (Group ts) = concat (map leaves ts)"

fun leaf_positions :: "nat list \<Rightarrow> nat \<Rightarrow> 'a tree list \<Rightarrow> nat list list" where
  "leaf_positions path i [] = []"
| "leaf_positions path i (Group children # rest) =
     leaf_positions (path @ [i]) 0 children @ leaf_positions path (Suc i) rest"
| "leaf_positions path i (Leaf x # rest) = (path @ [i]) # leaf_positions path (Suc i) rest"

text \<open>
  The runs that the spec's algorithm asks for, written without the runner: \<open>leaf_jobs\<close>
  lists the leaf tasks of the tree from left to right, each with the prior record that
  steps 1 to 3 give it (this depends on the tree and the prior log only), and
  \<open>run_leaves\<close> invokes the run of each job in turn on the world the earlier runs left,
  collecting the records; whether a record is successful plays no part, only an exception
  ends it.
\<close>

fun leaf_jobs ::
  "('t \<Rightarrow> pyval) \<Rightarrow> nat list \<Rightarrow> tasklog tree option \<Rightarrow> nat \<Rightarrow> 't tree list \<Rightarrow>
   ('t \<times> tasklog) list" where
  "leaf_jobs label path prior i [] = []"
| "leaf_jobs label path prior i (Group children # rest) =
     leaf_jobs label (path @ [i]) (sub_prior (prev_entry prior i)) 0 children
     @ leaf_jobs label path prior (Suc i) rest"
| "leaf_jobs label path prior i (Leaf task # rest) =
     (task, prior_record (prev_entry prior i) (TaskLog_init (index_of (path @ [i])) (label task)))
     # leaf_jobs label path prior (Suc i) rest"

fun run_leaves ::
  "('t \<Rightarrow> tasklog \<Rightarrow> 's \<Rightarrow> (exn + tasklog) \<times> 's) \<Rightarrow> ('t \<times> tasklog) list \<Rightarrow> 's \<Rightarrow>
   (exn + tasklog list) \<times> 's" where
  "run_leaves run1 [] w = (Inr [], w)"
| "run_leaves run1 (job # jobs) w =
     (case run1 (fst job) (snd job) w of
        (Inl e, w1) \<Rightarrow> (Inl e, w1)
      | (Inr r, w1) \<Rightarrow>
          (case run_leaves run1 jobs w1 of
             (Inl e, w2) \<Rightarrow> (Inl e, w2)
           | (Inr rs, w2) \<Rightarrow> (Inr (r # rs), w2)))"

text \<open>
  Fixtures: \<open>MockTask\<close> of the tests, whose \<open>_run\<close> ignores the prior record and returns a
  record with the task's name and its fixed success (the tests build the record without an
  index; it is \<open>None\<close> here); the tree of the spec's scenario A and the log of its run.
\<close>

definition mock_log :: "bool \<Rightarrow> string \<Rightarrow> tasklog" where
  "mock_log ok n = (TaskLog_init PNone (PStr n))\<lparr>last_run_success := PBool ok\<rparr>"

definition MockTask_run :: "bool \<times> string \<Rightarrow> tasklog \<Rightarrow> unit \<Rightarrow> (exn + tasklog) \<times> unit" where
  "MockTask_run task x w = (Inr (mock_log (fst task) (snd task)), w)"

definition MockTask_label :: "bool \<times> string \<Rightarrow> pyval" where
  "MockTask_label task = PStr (snd task)"

definition scenario_tree :: "(bool \<times> string) tree list" where
  "scenario_tree =
     [Leaf (True, ''Task0''), Group [Leaf (True, ''Task1a''), Leaf (False, ''Task1b'')],
      Leaf (True, ''Task2'')]"

definition scenario_log :: "tasklog tree list" where
  "scenario_log =
     [Leaf (mock_log True ''Task0''),
      Group [Leaf (mock_log True ''Task1a''), Leaf (mock_log False ''Task1b'')],
      Leaf (mock_log True ''Task2'')]"

text \<open>
  A fixture whose run uses what it is given: it returns the prior record with the task's
  fixed success and, as its info, the number of runs that the world has seen, and counts
  itself in the world.
\<close>

definition CountTask_run :: "bool \<times> string \<Rightarrow> tasklog \<Rightarrow> nat \<Rightarrow> (exn + tasklog) \<times> nat" where
  "CountTask_run task x w =
     (Inr (x\<lparr>last_run_success := PBool (fst task), info := [(''run'', PInt (int w))]\<rparr>), Suc w)"

definition counted :: "nat list \<Rightarrow> string \<Rightarrow> bool \<Rightarrow> int \<Rightarrow> tasklog" where
  "counted path n ok k =
     (TaskLog_init (index_of path) (PStr n))\<lparr>last_run_success := PBool ok,
                                              info := [(''run'', PInt k)]\<rparr>"

section \<open>Properties of dicts\<close>

lemma update_fresh: "k \<notin> fst ` set al \<Longrightarrow> AList.update k v al = al @ [(k, v)]"
  by (induction al) auto

lemma fold_update_distinct:
  "distinct (map fst (acc @ items)) \<Longrightarrow>
   fold (\<lambda>kv d. AList.update (fst kv) (snd kv) d) items acc = acc @ items"
proof (induction items arbitrary: acc)
  case Nil
  then show ?case by simp
next
  case (Cons x xs)
  have "fst x \<notin> fst ` set acc" using Cons.prems by auto
  then have u: "AList.update (fst x) (snd x) acc = acc @ [x]"
    by (simp add: update_fresh)
  have "distinct (map fst ((acc @ [x]) @ xs))" using Cons.prems by simp
  from Cons.IH[OF this] u show ?case by simp
qed

lemma py_dict_distinct: "distinct (map fst items) \<Longrightarrow> py_dict items = items"
  using fold_update_distinct[of "[]" items] by (simp add: py_dict_def)

lemma map_of_py_dict:
  assumes "distinct (map k ps)" and "p \<in> set ps"
  shows "map_of (py_dict (map (\<lambda>p. (k p, f p)) ps)) (k p) = Some (f p)"
proof -
  have d: "distinct (map fst (map (\<lambda>p. (k p, f p)) ps))"
    using assms(1) by (simp add: comp_def)
  have "(k p, f p) \<in> set (map (\<lambda>p. (k p, f p)) ps)"
    using assms(2) by auto
  with d show ?thesis
    by (simp add: py_dict_distinct del: set_map map_map)
qed

section \<open>Properties of the task lifecycle\<close>

lemma rerun_calls:
  "\<exists>cs. calls (final_state (Task_rerun conv C log st)) = calls st @ Action # cs"
  unfolding Task_rerun_def final_state_def
  by (auto split: prod.splits sum.splits simp: Let_def)

lemma invoked_rerun: "invoked st (Task_rerun conv C log st) \<noteq> []"
  using rerun_calls[of conv C log st] unfolding invoked_def by auto

text \<open>
  C1. When \<open>_check\<close> finds neither the inputs nor the outputs changed and the prior
  record's \<open>last_run_success\<close> is \<open>True\<close>, \<open>Task._run\<close> returns the prior record as it
  is, in an unchanged state: no hook (action, success, after) has been called.
\<close>

theorem Task_run_skip:
  assumes "Task_check (t_inputs (self st)) (inputs log) = False"
      and "Task_check (t_outputs (self st)) (outputs log) = False"
      and "last_run_success log = PBool True"
  shows "Task_run conv C log st = Inr (log, st) \<and> invoked st (Task_run conv C log st) = []"
  using assms unfolding Task_run_def invoked_def final_state_def by simp

theorem Task_run_skip_witness:
  "Task_check (t_inputs (self demo_state)) (inputs (demo_log (PBool True))) = False \<and>
   Task_check (t_outputs (self demo_state)) (outputs (demo_log (PBool True))) = False \<and>
   last_run_success (demo_log (PBool True)) = PBool True \<and>
   Task_run values_conv (demo_cls [mtime_par] (PList []) RetNone) (demo_log (PBool True)) demo_state
     = Inr (demo_log (PBool True), demo_state)"
proof -
  have a: "Task_check (t_inputs (self demo_state)) (inputs (demo_log (PBool True))) = False"
    by (simp add: Task_check_def demo_state_def demo_obj_def demo_log_def mtime_par_def)
  have b: "Task_check (t_outputs (self demo_state)) (outputs (demo_log (PBool True))) = False"
    by (simp add: Task_check_def demo_state_def demo_obj_def demo_log_def Parameter_def)
  have c: "last_run_success (demo_log (PBool True)) = PBool True"
    by (simp add: demo_log_def)
  from Task_run_skip[OF a b c, of values_conv "demo_cls [mtime_par] (PList []) RetNone"] a b c
  show ?thesis by simp
qed

text \<open>
  C2. \<open>Task._run\<close> reruns the task (it calls hooks, the action hook first) exactly when
  the inputs changed, or the outputs changed, or the prior \<open>last_run_success\<close> is not
  \<open>True\<close>; then its result is that of \<open>_rerun\<close>. A prior \<open>last_run_success\<close> of \<open>False\<close>
  or \<open>None\<close> forces the rerun whatever the snapshots are.
\<close>

theorem Task_run_trigger:
  "((invoked st (Task_run conv C log st) \<noteq> []) =
      (Task_check (t_inputs (self st)) (inputs log) \<or>
       Task_check (t_outputs (self st)) (outputs log) \<or>
       last_run_success log \<noteq> PBool True))
   \<and> (Task_check (t_inputs (self st)) (inputs log) \<or>
       Task_check (t_outputs (self st)) (outputs log) \<or>
       last_run_success log \<noteq> PBool True
       \<longrightarrow> Task_run conv C log st = Task_rerun conv C log st)
   \<and> (last_run_success log = PBool False \<or> last_run_success log = PNone
       \<longrightarrow> Task_run conv C log st = Task_rerun conv C log st)"
proof -
  let ?c = "Task_check (t_inputs (self st)) (inputs log) \<or>
      Task_check (t_outputs (self st)) (outputs log) \<or>
      last_run_success log \<noteq> PBool True"
  have r: "?c \<Longrightarrow> Task_run conv C log st = Task_rerun conv C log st"
    unfolding Task_run_def by (simp add: Let_def)
  have s: "\<not> ?c \<Longrightarrow> Task_run conv C log st = Inr (log, st)"
    unfolding Task_run_def by (simp add: Let_def)
  have i: "\<not> ?c \<Longrightarrow> invoked st (Task_run conv C log st) = []"
    using s by (simp add: invoked_def final_state_def)
  show ?thesis using r i invoked_rerun[of st conv C log] by (cases ?c) auto
qed

theorem Task_run_trigger_witness:
  "last_run_success (demo_log PNone) = PNone \<and>
   \<not> Task_check (t_inputs (self demo_state)) (inputs (demo_log PNone)) \<and>
   \<not> Task_check (t_outputs (self demo_state)) (outputs (demo_log PNone)) \<and>
   invoked demo_state
     (Task_run values_conv (demo_cls [mtime_par] (PList []) (RetList [])) (demo_log PNone) demo_state) \<noteq> [] \<and>
   Task_run values_conv (demo_cls [mtime_par] (PList []) (RetList [])) (demo_log PNone) demo_state
     = Task_rerun values_conv (demo_cls [mtime_par] (PList []) (RetList [])) (demo_log PNone) demo_state"
proof -
  have a: "\<not> Task_check (t_inputs (self demo_state)) (inputs (demo_log PNone))"
    by (simp add: Task_check_def demo_state_def demo_obj_def demo_log_def mtime_par_def)
  have b: "\<not> Task_check (t_outputs (self demo_state)) (outputs (demo_log PNone))"
    by (simp add: Task_check_def demo_state_def demo_obj_def demo_log_def Parameter_def)
  have c: "last_run_success (demo_log PNone) = PNone"
    by (simp add: demo_log_def)
  note t = Task_run_trigger[of demo_state values_conv "demo_cls [mtime_par] (PList []) (RetList [])"
      "demo_log PNone"]
  have nt: "last_run_success (demo_log PNone) \<noteq> PBool True"
    using c by simp
  from t nt have i: "invoked demo_state
     (Task_run values_conv (demo_cls [mtime_par] (PList []) (RetList [])) (demo_log PNone) demo_state) \<noteq> []"
    by blast
  from t nt have r: "Task_run values_conv (demo_cls [mtime_par] (PList []) (RetList [])) (demo_log PNone) demo_state
     = Task_rerun values_conv (demo_cls [mtime_par] (PList []) (RetList [])) (demo_log PNone) demo_state"
    by blast
  from a b c i r show ?thesis by blast
qed

lemma Task_rerun_returns:
  assumes act: "h_action C (self st) (world st) = (Inr r, w1)"
      and suc: "h_success C ((self st)\<lparr>report := Some r\<rparr>) w1 = (Inr sv, w2)"
      and it: "py_iter sv = Inr rs"
      and aft: "h_after C ((self st)\<lparr>report := Some r\<rparr>) w2 = (Inr ar, w3)"
      and pro: "Task_process conv ar = Inr ips"
  shows "\<exists>log' st'. Task_rerun conv C log st = Inr (log', st') \<and>
           (list_all truthy rs \<longrightarrow>
              inputs log' = py_dict (map (\<lambda>p. (p_name p, p_refresh p w3)) (t_inputs (self st))) \<and>
              outputs log' = py_dict (map (\<lambda>p. (p_name p, p_refresh p w3)) (t_outputs (self st))) \<and>
              (distinct (map p_name (t_inputs (self st))) \<longrightarrow>
                 (\<forall>p \<in> set (t_inputs (self st)).
                    map_of (inputs log') (p_name p) = Some (p_refresh p w3))) \<and>
              (distinct (map p_name (t_outputs (self st))) \<longrightarrow>
                 (\<forall>p \<in> set (t_outputs (self st)).
                    map_of (outputs log') (p_name p) = Some (p_refresh p w3))) \<and>
              last_run_success log' = PBool True \<and>
              t_inputs (self st') = map (Parameter_update w3) (t_inputs (self st)) \<and>
              t_outputs (self st') = map (Parameter_update w3) (t_outputs (self st))) \<and>
           (\<not> list_all truthy rs \<longrightarrow>
              inputs log' = inputs log \<and> outputs log' = outputs log \<and>
              last_run_success log' = PBool False)"
proof -
  have pa: "py_all sv = Inr (list_all truthy rs)"
    using it by (simp add: py_all_def)
  show ?thesis
  proof (cases "list_all truthy rs")
    case True
    have m: "distinct (map p_name ps) \<Longrightarrow> p \<in> set ps \<Longrightarrow>
             map_of (py_dict (map (\<lambda>x. (p_name x, p_refresh x w3)) ps)) (p_name p)
               = Some (p_refresh p w3)" for ps and p :: "'a param"
      by (rule map_of_py_dict)
    from True show ?thesis
      unfolding Task_rerun_def using act suc pa aft pro
      by (simp add: Let_def Task_rebuild_def comp_def Parameter_update_def m)
  next
    case False
    then show ?thesis
      unfolding Task_rerun_def using act suc pa aft pro
      by (simp add: Let_def Task_rebuild_def)
  qed
qed

lemma Task_rerun_raises:
  "Task_rerun conv C log st = Inl (e, l, s) \<Longrightarrow> l = log"
  unfolding Task_rerun_def
  by (auto split: prod.splits sum.splits if_splits simp: Let_def)

lemma Task_rerun_returned:
  "Task_rerun conv C log st = Inr (log', st') \<Longrightarrow>
   \<exists>r w1 sv w2 rs ar w3 ips.
     h_action C (self st) (world st) = (Inr r, w1) \<and>
     h_success C ((self st)\<lparr>report := Some r\<rparr>) w1 = (Inr sv, w2) \<and>
     py_iter sv = Inr rs \<and>
     h_after C ((self st)\<lparr>report := Some r\<rparr>) w2 = (Inr ar, w3) \<and>
     Task_process conv ar = Inr ips"
  unfolding Task_rerun_def py_all_def
  by (auto split: prod.splits sum.splits if_splits simp: Let_def)

text \<open>
  C4 (as amended). A rerun either ends with an exception, and then the record is as it
  was before the rerun; or it returns, which it does exactly when the action, success and
  after hooks return normally, \<open>all\<close> can iterate the success result and \<open>_process\<close>
  accepts the after result. When it returns and the run is successful, every input and
  output parameter is updated, the record's \<open>inputs\<close> and \<open>outputs\<close> are the dicts of the
  refreshed snapshots (each parameter's snapshot under its name, the names of a set being
  distinct) and \<open>last_run_success\<close> is \<open>True\<close>; when it returns and the run is not
  successful, \<open>inputs\<close> and \<open>outputs\<close> are as before the rerun and \<open>last_run_success\<close> is
  \<open>False\<close>.
\<close>

theorem Task_rerun_record:
  "(\<forall>e l s. Task_rerun conv C log st = Inl (e, l, s) \<longrightarrow> l = log) \<and>
   (\<forall>log' st'. Task_rerun conv C log st = Inr (log', st') \<longrightarrow>
      (\<exists>r w1 sv w2 rs ar w3 ips.
         h_action C (self st) (world st) = (Inr r, w1) \<and>
         h_success C ((self st)\<lparr>report := Some r\<rparr>) w1 = (Inr sv, w2) \<and>
         py_iter sv = Inr rs \<and>
         h_after C ((self st)\<lparr>report := Some r\<rparr>) w2 = (Inr ar, w3) \<and>
         Task_process conv ar = Inr ips)) \<and>
   (\<forall>r w1 sv w2 rs ar w3 ips.
      h_action C (self st) (world st) = (Inr r, w1) \<and>
      h_success C ((self st)\<lparr>report := Some r\<rparr>) w1 = (Inr sv, w2) \<and>
      py_iter sv = Inr rs \<and>
      h_after C ((self st)\<lparr>report := Some r\<rparr>) w2 = (Inr ar, w3) \<and>
      Task_process conv ar = Inr ips
      \<longrightarrow>
      (\<exists>log' st'. Task_rerun conv C log st = Inr (log', st') \<and>
           (list_all truthy rs \<longrightarrow>
              inputs log' = py_dict (map (\<lambda>p. (p_name p, p_refresh p w3)) (t_inputs (self st))) \<and>
              outputs log' = py_dict (map (\<lambda>p. (p_name p, p_refresh p w3)) (t_outputs (self st))) \<and>
              (distinct (map p_name (t_inputs (self st))) \<longrightarrow>
                 (\<forall>p \<in> set (t_inputs (self st)).
                    map_of (inputs log') (p_name p) = Some (p_refresh p w3))) \<and>
              (distinct (map p_name (t_outputs (self st))) \<longrightarrow>
                 (\<forall>p \<in> set (t_outputs (self st)).
                    map_of (outputs log') (p_name p) = Some (p_refresh p w3))) \<and>
              last_run_success log' = PBool True \<and>
              t_inputs (self st') = map (Parameter_update w3) (t_inputs (self st)) \<and>
              t_outputs (self st') = map (Parameter_update w3) (t_outputs (self st))) \<and>
           (\<not> list_all truthy rs \<longrightarrow>
              inputs log' = inputs log \<and> outputs log' = outputs log \<and>
              last_run_success log' = PBool False)))"
  using Task_rerun_raises[of conv C log st] Task_rerun_returned[of conv C log st]
    Task_rerun_returns[of C st _ _ _ _ _ _ _ conv _ log]
  by blast

theorem Task_rerun_record_witness:
  "(\<exists>log' st'.
     Task_rerun values_conv (demo_cls [mtime_par] (PList [PBool True, PInt 2]) (RetList []))
       (demo_log (PBool False)) demo_state = Inr (log', st') \<and>
     inputs log' = [(''infile'', PList [PStr ''in.txt'', PInt 8])] \<and>
     outputs log' = [(''out'', PInt 0)] \<and>
     last_run_success log' = PBool True) \<and>
   (\<exists>log' st'.
     Task_rerun values_conv (demo_cls [mtime_par] (PList [PBool True, PInt 0]) (RetList []))
       (demo_log (PBool True)) demo_state = Inr (log', st') \<and>
     inputs log' = [(''infile'', PList [PStr ''in.txt'', PInt 7])] \<and>
     outputs log' = [(''out'', PInt 0)] \<and>
     last_run_success log' = PBool False)"
proof -
  have act: "h_action (demo_cls [mtime_par] sv (RetList [])) (self demo_state) (world demo_state)
               = (Inr (PStr ''done''), 8)" for sv
    by (simp add: demo_cls_def demo_state_def)
  have suc: "h_success (demo_cls [mtime_par] sv (RetList []))
               ((self demo_state)\<lparr>report := Some (PStr ''done'')\<rparr>) 8 = (Inr sv, 8)" for sv
    by (simp add: demo_cls_def)
  have aft: "h_after (demo_cls [mtime_par] sv (RetList []))
               ((self demo_state)\<lparr>report := Some (PStr ''done'')\<rparr>) 8 = (Inr (RetList []), 8)" for sv
    by (simp add: demo_cls_def)
  have pro: "Task_process values_conv (RetList []) = Inr ([] :: int param list)"
    by (simp add: values_conv_def py_dict_def)
  have it1: "py_iter (PList [PBool True, PInt 2]) = Inr [PBool True, PInt 2]"
    by simp
  have it2: "py_iter (PList [PBool True, PInt 0]) = Inr [PBool True, PInt 0]"
    by simp
  from Task_rerun_record[of values_conv "demo_cls [mtime_par] (PList [PBool True, PInt 2]) (RetList [])"
      "demo_log (PBool False)" demo_state] act suc it1 aft pro
  have "\<exists>log' st'.
     Task_rerun values_conv (demo_cls [mtime_par] (PList [PBool True, PInt 2]) (RetList []))
       (demo_log (PBool False)) demo_state = Inr (log', st') \<and>
     (list_all truthy [PBool True, PInt 2] \<longrightarrow>
        inputs log' = py_dict (map (\<lambda>p. (p_name p, p_refresh p 8)) (t_inputs (self demo_state))) \<and>
        outputs log' = py_dict (map (\<lambda>p. (p_name p, p_refresh p 8)) (t_outputs (self demo_state))) \<and>
        last_run_success log' = PBool True)"
    by blast
  then have 1: "\<exists>log' st'.
     Task_rerun values_conv (demo_cls [mtime_par] (PList [PBool True, PInt 2]) (RetList []))
       (demo_log (PBool False)) demo_state = Inr (log', st') \<and>
     inputs log' = [(''infile'', PList [PStr ''in.txt'', PInt 8])] \<and>
     outputs log' = [(''out'', PInt 0)] \<and>
     last_run_success log' = PBool True"
    by (auto simp: demo_state_def demo_obj_def mtime_par_def Parameter_def py_dict_def)
  from Task_rerun_record[of values_conv "demo_cls [mtime_par] (PList [PBool True, PInt 0]) (RetList [])"
      "demo_log (PBool True)" demo_state] act suc it2 aft pro
  have "\<exists>log' st'.
     Task_rerun values_conv (demo_cls [mtime_par] (PList [PBool True, PInt 0]) (RetList []))
       (demo_log (PBool True)) demo_state = Inr (log', st') \<and>
     (\<not> list_all truthy [PBool True, PInt 0] \<longrightarrow>
        inputs log' = inputs (demo_log (PBool True)) \<and>
        outputs log' = outputs (demo_log (PBool True)) \<and>
        last_run_success log' = PBool False)"
    by blast
  then have 2: "\<exists>log' st'.
     Task_rerun values_conv (demo_cls [mtime_par] (PList [PBool True, PInt 0]) (RetList []))
       (demo_log (PBool True)) demo_state = Inr (log', st') \<and>
     inputs log' = [(''infile'', PList [PStr ''in.txt'', PInt 7])] \<and>
     outputs log' = [(''out'', PInt 0)] \<and>
     last_run_success log' = PBool False"
    by (auto simp: demo_log_def)
  from 1 2 show ?thesis by blast
qed

text \<open>
  Not every rerun ends with the record updated: when the after hook raises, or is the
  inherited one, the rerun of a successful run (\<open>all\<close> of the success results is true)
  ends with the exception, and the record keeps its stale snapshot (the file's time 7
  where the world has 8) and its prior \<open>last_run_success\<close>, \<open>False\<close>.
\<close>

theorem Task_rerun_record_counterexample:
  "py_all (PList [PBool True]) = Inr True \<and>
   Task_rerun values_conv
     ((demo_cls [mtime_par] (PList [PBool True]) (RetList []))
        \<lparr>h_after := (\<lambda>slf w. (Inl (HookError ''after''), w))\<rparr>)
     (demo_log (PBool False)) demo_state
   = Inl (HookError ''after'', demo_log (PBool False),
          \<lparr>world = 8, self = demo_obj\<lparr>report := Some (PStr ''done'')\<rparr>,
           calls = [Before, Input, Output, Action, Success, After]\<rparr>) \<and>
   Task_rerun values_conv (demo_cls [mtime_par] (PList [PBool True]) RetNone)
     (demo_log (PBool False)) demo_state
   = Inl (TypeError, demo_log (PBool False),
          \<lparr>world = 8, self = demo_obj\<lparr>report := Some (PStr ''done'')\<rparr>,
           calls = [Before, Input, Output, Action, Success, After]\<rparr>) \<and>
   inputs (demo_log (PBool False)) = [(''infile'', PList [PStr ''in.txt'', PInt 7])] \<and>
   last_run_success (demo_log (PBool False)) = PBool False"
  by (simp add: Task_rerun_def demo_cls_def demo_state_def py_all_def demo_log_def)

text \<open>
  The success hook's results are combined by \<open>all\<close>: for a list or a tuple of results the
  run is successful exactly when every result is true, and an empty collection is a
  success.
\<close>

lemma py_all_collection:
  "py_all (PList xs) = Inr (\<forall>x \<in> set xs. truthy x)"
  "py_all (PTuple xs) = Inr (\<forall>x \<in> set xs. truthy x)"
  "py_all (PList []) = Inr True"
  by (simp_all add: py_all_def list_all_iff)

text \<open>
  C5. The docstring of \<open>Task\<close> lets the success hook return \<open>True\<close> itself rather than a
  list. \<open>_rerun\<close> passes the hook's result to \<open>all\<close>, which raises \<open>TypeError\<close> on a
  boolean: the rerun of a task whose success hook returns the single result \<open>True\<close> ends
  with that exception after the action and success hooks, the record untouched.
\<close>

theorem Task_rerun_single_result:
  "Task_rerun values_conv (demo_cls [mtime_par] (PBool True) (RetList []))
     (demo_log PNone) demo_state
   = Inl (TypeError, demo_log PNone,
          \<lparr>world = 8, self = demo_obj\<lparr>report := Some (PStr ''done'')\<rparr>,
           calls = [Before, Input, Output, Action, Success]\<rparr>)"
  by (simp add: Task_rerun_def demo_cls_def demo_state_def py_all_def)


text \<open>
  C6. When the before and input hooks return normally, \<open>Task.__init__\<close> raises the
  \<open>Warning\<close> of \<open>_process\<close> if two names among the user's inputs and the three reserved
  parameters coincide (so also if a user input has a reserved name); if the inputs pass,
  it raises it if two output names coincide. Either way no task object results. The two
  sets are checked separately: when each has distinct names (and the namedtuples are
  built), the object is constructed, whatever names the two sets share.
\<close>

theorem Task_init_duplicate_names:
  assumes bef: "h_before C \<lparr>args = as, kwargs = kws, t_inputs = [], t_outputs = [], report = None\<rparr> w
                  = (None, w1)"
      and inp: "h_input C \<lparr>args = as, kwargs = kws, t_inputs = [], t_outputs = [], report = None\<rparr> w1
                  = (Inr (RetList ui), w2)"
  shows "(\<not> distinct (map p_name ui @ reserved_names) \<longrightarrow>
            Task_init conv C as kws w
              = Inl (Warning (map p_name ui @ reserved_names), w2, [Before, Input])) \<and>
         ((\<exists>p \<in> set ui. p_name p \<in> set reserved_names) \<longrightarrow>
            Task_init conv C as kws w
              = Inl (Warning (map p_name ui @ reserved_names), w2, [Before, Input])) \<and>
         (\<forall>ins uo w3.
            distinct (map p_name ui @ reserved_names) \<and>
            Task_process conv
              (RetList (ui @ [Parameter ''name_'' (PStr (cls_name C)),
                              Parameter ''args_'' (PTuple as),
                              Parameter ''kwargs_'' (PDict kws)])) = Inr ins \<and>
            h_output C \<lparr>args = as, kwargs = kws, t_inputs = ins, t_outputs = [], report = None\<rparr> w2
              = (Inr (RetList uo), w3)
            \<longrightarrow> (\<not> distinct (map p_name uo) \<longrightarrow>
                   Task_init conv C as kws w
                     = Inl (Warning (map p_name uo), w3, [Before, Input, Output])) \<and>
                 (\<forall>outs. distinct (map p_name uo) \<and> Task_process conv (RetList uo) = Inr outs \<longrightarrow>
                   Task_init conv C as kws w
                     = Inr \<lparr>world = w3,
                            self = \<lparr>args = as, kwargs = kws, t_inputs = ins, t_outputs = outs,
                                    report = None\<rparr>,
                            calls = [Before, Input, Output]\<rparr>))"
proof -
  have c: "\<And>xs :: string list. (card (set xs) = length xs) = distinct xs"
    using card_distinct distinct_card by blast
  have names: "map p_name (ui @ [Parameter ''name_'' (PStr (cls_name C)) :: 'a param,
                              Parameter ''args_'' (PTuple as),
                              Parameter ''kwargs_'' (PDict kws)])
                 = map p_name ui @ reserved_names"
    by (simp add: Parameter_def reserved_names_def)
  have a: "\<not> distinct (map p_name ui @ reserved_names) \<Longrightarrow>
            Task_init conv C as kws w
              = Inl (Warning (map p_name ui @ reserved_names), w2, [Before, Input])"
    unfolding Task_init_def using bef inp names
    by (simp add: Let_def py_add_list_def c del: distinct_append map_append)
  have b: "(\<exists>p \<in> set ui. p_name p \<in> set reserved_names) \<Longrightarrow>
             \<not> distinct (map p_name ui @ reserved_names)"
    by auto
  have d: "\<And>ins uo w3.
            distinct (map p_name ui @ reserved_names) \<Longrightarrow>
            Task_process conv
              (RetList (ui @ [Parameter ''name_'' (PStr (cls_name C)),
                              Parameter ''args_'' (PTuple as),
                              Parameter ''kwargs_'' (PDict kws)])) = Inr ins \<Longrightarrow>
            h_output C \<lparr>args = as, kwargs = kws, t_inputs = ins, t_outputs = [], report = None\<rparr> w2
              = (Inr (RetList uo), w3) \<Longrightarrow>
            \<not> distinct (map p_name uo)
            \<Longrightarrow> Task_init conv C as kws w
                  = Inl (Warning (map p_name uo), w3, [Before, Input, Output])"
    unfolding Task_init_def using bef inp
    by (simp add: Let_def py_add_list_def c)
  have e: "\<And>ins uo w3 outs.
            Task_process conv
              (RetList (ui @ [Parameter ''name_'' (PStr (cls_name C)),
                              Parameter ''args_'' (PTuple as),
                              Parameter ''kwargs_'' (PDict kws)])) = Inr ins \<Longrightarrow>
            h_output C \<lparr>args = as, kwargs = kws, t_inputs = ins, t_outputs = [], report = None\<rparr> w2
              = (Inr (RetList uo), w3) \<Longrightarrow>
            Task_process conv (RetList uo) = Inr outs
            \<Longrightarrow> Task_init conv C as kws w
                     = Inr \<lparr>world = w3,
                            self = \<lparr>args = as, kwargs = kws, t_inputs = ins, t_outputs = outs,
                                    report = None\<rparr>,
                            calls = [Before, Input, Output]\<rparr>"
    unfolding Task_init_def using bef inp
    by (simp add: Let_def py_add_list_def)
  from a b d e show ?thesis by blast
qed


theorem Task_init_duplicate_names_witness:
  "Task_init values_conv (io_cls [Parameter ''args_'' (PInt 1)] []) [] [] 7
     = Inl (Warning [''args_'', ''name_'', ''args_'', ''kwargs_''], 7, [Before, Input]) \<and>
   Task_init values_conv (io_cls [mtime_par] [Parameter ''out'' (PInt 0), Parameter ''out'' (PInt 1)])
       [] [] 7
     = Inl (Warning [''out'', ''out''], 7, [Before, Input, Output]) \<and>
   (\<exists>s. Task_init values_conv (io_cls [mtime_par] [Parameter ''infile'' (PInt 0)]) [] [] 7 = Inr s)"
proof -
  let ?self0 = "\<lparr>args = [], kwargs = [], t_inputs = [], t_outputs = [], report = None\<rparr> :: int task_obj"
  have b: "\<And>ins outs. h_before (io_cls ins outs) ?self0 7 = (None, 7)"
    by (simp add: io_cls_def demo_cls_def Task_before_def)
  have i: "\<And>ins outs. h_input (io_cls ins outs) ?self0 7 = (Inr (RetList ins), 7)"
    by (simp add: io_cls_def demo_cls_def)
  have o: "\<And>ins outs slf. h_output (io_cls ins outs) slf 7 = (Inr (RetList outs), 7)"
    by (simp add: io_cls_def demo_cls_def)
  have r: "\<exists>p \<in> set [Parameter ''args_'' (PInt 1) :: int param]. p_name p \<in> set reserved_names"
    by (simp add: Parameter_def reserved_names_def)
  have 1: "Task_init values_conv (io_cls [Parameter ''args_'' (PInt 1)] []) [] [] 7
     = Inl (Warning [''args_'', ''name_'', ''args_'', ''kwargs_''], 7, [Before, Input])"
    using Task_init_duplicate_names[OF b[of "[Parameter ''args_'' (PInt 1)]" "[]"]
          i[of "[Parameter ''args_'' (PInt 1)]" "[]"], where conv = values_conv] r
    by (simp add: Parameter_def reserved_names_def)
  have d: "distinct (map p_name [mtime_par] @ reserved_names)"
    by (simp add: mtime_par_def reserved_names_def)
  have p: "Task_process values_conv
              (RetList ([mtime_par] @ [Parameter ''name_'' (PStr (cls_name (io_cls [mtime_par] outs))),
                              Parameter ''args_'' (PTuple []),
                              Parameter ''kwargs_'' (PDict [])]))
           = Inr [mtime_par, Parameter ''name_'' (PStr ''Demo''), Parameter ''args_'' (PTuple []),
                  Parameter ''kwargs_'' (PDict [])]" for outs
    by (simp add: values_conv_def py_dict_def mtime_par_def Parameter_def io_cls_def demo_cls_def)
  have nd: "\<not> distinct (map p_name [Parameter ''out'' (PInt 0) :: int param, Parameter ''out'' (PInt 1)])"
    by (simp add: Parameter_def)
  have 2: "Task_init values_conv (io_cls [mtime_par] [Parameter ''out'' (PInt 0), Parameter ''out'' (PInt 1)])
       [] [] 7
     = Inl (Warning [''out'', ''out''], 7, [Before, Input, Output])"
    using Task_init_duplicate_names[OF
          b[of "[mtime_par]" "[Parameter ''out'' (PInt 0), Parameter ''out'' (PInt 1)]"]
          i[of "[mtime_par]" "[Parameter ''out'' (PInt 0), Parameter ''out'' (PInt 1)]"],
          where conv = values_conv] d p o nd
    by (simp add: Parameter_def)
  have dd: "distinct (map p_name [Parameter ''infile'' (PInt 0) :: int param])"
    by simp
  have pp: "Task_process values_conv (RetList [Parameter ''infile'' (PInt 0) :: int param])
              = Inr [Parameter ''infile'' (PInt 0)]"
    by (simp add: values_conv_def py_dict_def Parameter_def)
  have 3: "\<exists>s. Task_init values_conv (io_cls [mtime_par] [Parameter ''infile'' (PInt 0)]) [] [] 7 = Inr s"
    using Task_init_duplicate_names[OF
          b[of "[mtime_par]" "[Parameter ''infile'' (PInt 0)]"]
          i[of "[mtime_par]" "[Parameter ''infile'' (PInt 0)]"],
          where conv = values_conv] d p o dd pp
    by blast
  from 1 2 3 show ?thesis by blast
qed


text \<open>
  C10. A task that keeps the inherited after hook never completes a rerun: \<open>_rerun\<close>
  always ends with an exception, and so does every \<open>_run\<close> that triggers a rerun. When
  the action and success hooks return normally and \<open>all\<close> accepts the result, the
  exception is the \<open>TypeError\<close> of \<open>_process(None)\<close>, raised after the three hooks were
  called and before any field of the record is assigned.
\<close>

theorem Task_rerun_default_after:
  assumes "h_after C = Task_after"
  shows "(\<exists>e l s. Task_rerun conv C log st = Inl (e, l, s)) \<and>
         (Task_check (t_inputs (self st)) (inputs log) \<or>
          Task_check (t_outputs (self st)) (outputs log) \<or>
          last_run_success log \<noteq> PBool True
          \<longrightarrow> (\<exists>e l s. Task_run conv C log st = Inl (e, l, s))) \<and>
         (\<forall>r w1 sv w2 b.
            h_action C (self st) (world st) = (Inr r, w1) \<and>
            h_success C ((self st)\<lparr>report := Some r\<rparr>) w1 = (Inr sv, w2) \<and>
            py_all sv = Inr b
            \<longrightarrow> Task_rerun conv C log st =
                  Inl (TypeError, log,
                       \<lparr>world = w2, self = (self st)\<lparr>report := Some r\<rparr>,
                        calls = calls st @ [Action, Success, After]\<rparr>))"
proof -
  have a: "\<exists>e l s. Task_rerun conv C log st = Inl (e, l, s)"
    unfolding Task_rerun_def using assms
    by (auto split: prod.splits sum.splits simp: Let_def Task_after_def)
  have b: "Task_check (t_inputs (self st)) (inputs log) \<or>
          Task_check (t_outputs (self st)) (outputs log) \<or>
          last_run_success log \<noteq> PBool True
          \<Longrightarrow> Task_run conv C log st = Task_rerun conv C log st"
    unfolding Task_run_def by (simp add: Let_def)
  have c: "\<And>r w1 sv w2 b. h_action C (self st) (world st) = (Inr r, w1) \<Longrightarrow>
            h_success C ((self st)\<lparr>report := Some r\<rparr>) w1 = (Inr sv, w2) \<Longrightarrow>
            py_all sv = Inr b
            \<Longrightarrow> Task_rerun conv C log st =
                  Inl (TypeError, log,
                       \<lparr>world = w2, self = (self st)\<lparr>report := Some r\<rparr>,
                        calls = calls st @ [Action, Success, After]\<rparr>)"
    unfolding Task_rerun_def using assms by (simp add: Let_def Task_after_def)
  from a b c show ?thesis by metis
qed


theorem Task_rerun_default_after_witness:
  "h_after (demo_cls [mtime_par] (PList [PBool True]) RetNone) = Task_after \<and>
   last_run_success (demo_log PNone) \<noteq> PBool True \<and>
   (\<exists>e l s. Task_run values_conv (demo_cls [mtime_par] (PList [PBool True]) RetNone)
              (demo_log PNone) demo_state = Inl (e, l, s)) \<and>
   Task_rerun values_conv (demo_cls [mtime_par] (PList [PBool True]) RetNone)
     (demo_log PNone) demo_state
   = Inl (TypeError, demo_log PNone,
          \<lparr>world = 8, self = demo_obj\<lparr>report := Some (PStr ''done'')\<rparr>,
           calls = [Before, Input, Output, Action, Success, After]\<rparr>)"
proof -
  let ?C = "demo_cls [mtime_par] (PList [PBool True]) RetNone"
  have h: "h_after ?C = Task_after"
    by (simp add: demo_cls_def Task_after_def fun_eq_iff)
  have n: "last_run_success (demo_log PNone) \<noteq> PBool True"
    by (simp add: demo_log_def)
  have act: "h_action ?C (self demo_state) (world demo_state) = (Inr (PStr ''done''), 8)"
    by (simp add: demo_cls_def demo_state_def)
  have suc: "h_success ?C ((self demo_state)\<lparr>report := Some (PStr ''done'')\<rparr>) 8
               = (Inr (PList [PBool True]), 8)"
    by (simp add: demo_cls_def)
  have pa: "py_all (PList [PBool True]) = Inr True"
    by (simp add: py_all_def)
  note t = Task_rerun_default_after[OF h, of values_conv "demo_log PNone" demo_state]
  from t n have r: "\<exists>e l s. Task_run values_conv ?C (demo_log PNone) demo_state = Inl (e, l, s)"
    by blast
  from t act suc pa have e: "Task_rerun values_conv ?C (demo_log PNone) demo_state =
      Inl (TypeError, demo_log PNone,
           \<lparr>world = 8, self = (self demo_state)\<lparr>report := Some (PStr ''done'')\<rparr>,
            calls = calls demo_state @ [Action, Success, After]\<rparr>)"
    by blast
  from h n r e show ?thesis by (simp add: demo_state_def)
qed

section \<open>Properties of the change check\<close>

lemma Task_check_iff:
  "Task_check para_dic old_values =
     (\<exists>para \<in> set para_dic.
        case map_of old_values (p_name para) of
          None \<Rightarrow> True
        | Some old_value \<Rightarrow>
            \<not> py_eq (case p_log_value para of PTuple xs \<Rightarrow> PList xs | v \<Rightarrow> v) old_value)"
proof -
  have "\<And>c. check_loop c para_dic old_values =
     (c \<or> (\<exists>para \<in> set para_dic.
        case map_of old_values (p_name para) of
          None \<Rightarrow> True
        | Some old_value \<Rightarrow>
            \<not> py_eq (case p_log_value para of PTuple xs \<Rightarrow> PList xs | v \<Rightarrow> v) old_value))"
    by (induction para_dic) (auto simp: Let_def split: option.splits)
  then show ?thesis by (simp add: Task_check_def)
qed

text \<open>
  C3. \<open>Task._check\<close> answers \<open>True\<close> exactly when some current parameter's name is not a
  key of the prior mapping or its snapshot differs from the value stored there
  (\<open>Task_check_iff\<close>; keys that only the prior mapping has play no part). Before the
  comparison a snapshot that is a tuple is turned into a list, but only at the top: a
  tuple inside the snapshot stays a tuple, while the file holds a list for it. So the
  snapshot \<open>((1, 2),)\<close> of the arguments of \<open>Task((1, 2))\<close>, compared with its own
  persisted form \<open>[[1, 2]]\<close>, counts as changed, where the flat \<open>(1, 2)\<close> against
  \<open>[1, 2]\<close> does not.
\<close>

theorem Task_check_nested_tuple:
  "persisted (PTuple [PTuple [PInt 1, PInt 2]]) = PList [PList [PInt 1, PInt 2]] \<and>
   Task_check [Parameter ''args_'' (PTuple [PTuple [PInt 1, PInt 2]]) :: int param]
     [(''args_'', persisted (PTuple [PTuple [PInt 1, PInt 2]]))] = True \<and>
   Task_check [Parameter ''args_'' (PTuple [PInt 1, PInt 2]) :: int param]
     [(''args_'', persisted (PTuple [PInt 1, PInt 2]))] = False"
  by (simp add: Task_check_def Parameter_def persisted_def)

section \<open>Properties of the log store\<close>

lemma iterate_total:
  "(\<And>x. func x = Inr (f x)) \<Longrightarrow> recursive_iterate_log func t = Inr (map (map_tree f) t)"
  by (induction func t rule: recursive_iterate_log.induct) simp_all








lemma tree_list_induct [case_names Nil Group Leaf]:
  assumes "P []"
      and "\<And>xs rest. P xs \<Longrightarrow> P rest \<Longrightarrow> P (Group xs # rest)"
      and "\<And>x rest. P rest \<Longrightarrow> P (Leaf x # rest)"
  shows "P (t :: 'a tree list)"
proof (induction "\<lambda>x :: 'a. (Inr x :: exn + 'a)" t rule: recursive_iterate_log.induct)
  case 1
  show ?case by (rule assms(1))
next
  case (2 xs rest)
  have "recursive_iterate_log (\<lambda>x :: 'a. (Inr x :: exn + 'a)) xs = Inr (map (map_tree (\<lambda>x. x)) xs)"
    by (rule iterate_total) simp
  with 2 show ?case using assms(2) by blast
next
  case (3 x rest)
  then show ?case using assms(3) by blast
qed


lemma Log_load_cached [simp]: "Log_load rlimit (S\<lparr>cached_log := c\<rparr>) = Log_load rlimit S"
  by (simp add: Log_load_def)







lemma json_shaped_dict_wf: "json_shaped v \<Longrightarrow> dict_wf v"
  by (induction v) auto








text \<open>
  Writing the empty log over an existing file: \<open>_write\<close> reads \<open>self.log\<close>, whose test
  \<open>not self._log\<close> takes the empty list for a missing log and loads the old file. The
  old content is written back.
\<close>

lemma Log_write_empty_log:
  "write_then_load no_limit no_limit [] old_store = Inr [Leaf list_log]"
  by (simp add: write_then_load_def Log_set_log_def Log_write_def Log_log_def Log_load_def
      old_store_def TaskLog_dict_def list_log_def demo_log_def py_dict_def
      TaskLog_from_dict_def mapping_field_def no_limit_def)

section \<open>Properties of the tree runner\<close>

lemma run_tasks_Group:
  assumes "run_tasks run1 label path prior i (Group children # rest) st = (Inr (ok, new_log), st')"
  obtains ok1 sub_log st1 ok2 entries where
    "run_tasks run1 label (path @ [i]) (sub_prior (prev_entry prior i)) 0 children st
       = (Inr (ok1, sub_log), st1)"
    "run_tasks run1 label path prior (Suc i) rest st1 = (Inr (ok2, entries), st')"
    "new_log = Group sub_log # entries" "ok = (ok1 \<and> ok2)"
  using assms by (auto split: prod.splits sum.splits)

lemma run_tasks_Leaf:
  assumes "run_tasks run1 label path prior i (Leaf task # rest) st = (Inr (ok, new_log), st')"
  obtains r w1 ok2 entries where
    "run1 task (prior_record (prev_entry prior i)
                (TaskLog_init (index_of (path @ [i])) (label task))) (rworld st) = (Inr r, w1)"
    "run_tasks run1 label path prior (Suc i) rest
       \<lparr>rworld = w1, attempted = attempted st @ [path @ [i]]\<rparr> = (Inr (ok2, entries), st')"
    "new_log = Leaf r # entries" "ok = (last_run_success r = PBool True \<and> ok2)"
  using assms by (auto split: prod.splits sum.splits)

lemma run_tasks_shape:
  "run_tasks run1 label path prior i nodes st = (Inr (ok, new_log), st')
   \<Longrightarrow> list_all2 same_shape nodes new_log"
proof (induction nodes arbitrary: path prior i st ok new_log st' rule: tree_list_induct)
  case Nil
  then show ?case by simp
next
  case (Group xs rest)
  from Group.prems show ?case
    by (elim run_tasks_Group) (use Group.IH in auto)
next
  case (Leaf x rest)
  from Leaf.prems show ?case
    by (elim run_tasks_Leaf) (use Leaf.IH in auto)
qed

lemma run_tasks_attempted:
  "run_tasks run1 label path prior i nodes st = (Inr (ok, new_log), st')
   \<Longrightarrow> attempted st' = attempted st @ leaf_positions path i nodes"
proof (induction nodes arbitrary: path prior i st ok new_log st' rule: tree_list_induct)
  case Nil
  then show ?case by simp
next
  case (Group xs rest)
  from Group.prems show ?case
    by (elim run_tasks_Group) (use Group.IH in fastforce)
next
  case (Leaf x rest)
  from Leaf.prems show ?case
    by (elim run_tasks_Leaf) (use Leaf.IH in fastforce)
qed

lemma run_tasks_success:
  "run_tasks run1 label path prior i nodes st = (Inr (ok, new_log), st')
   \<Longrightarrow> ok = (\<forall>r \<in> set (concat (map leaves new_log)). last_run_success r = PBool True)"
proof (induction nodes arbitrary: path prior i st ok new_log st' rule: tree_list_induct)
  case Nil
  then show ?case by auto
next
  case (Group xs rest)
  from Group.prems show ?case
  proof (elim run_tasks_Group)
    fix ok1 sub_log st1 ok2 entries
    assume a: "run_tasks run1 label (path @ [i]) (sub_prior (prev_entry prior i)) 0 xs st
                 = (Inr (ok1, sub_log), st1)"
      and b: "run_tasks run1 label path prior (Suc i) rest st1 = (Inr (ok2, entries), st')"
      and n: "new_log = Group sub_log # entries" and o: "ok = (ok1 \<and> ok2)"
    from Group.IH(1)[OF a] Group.IH(2)[OF b] n o show ?thesis by auto
  qed
next
  case (Leaf x rest)
  from Leaf.prems show ?case
  proof (elim run_tasks_Leaf)
    fix r w1 ok2 entries
    assume b: "run_tasks run1 label path prior (Suc i) rest
       \<lparr>rworld = w1, attempted = attempted st @ [path @ [i]]\<rparr> = (Inr (ok2, entries), st')"
      and n: "new_log = Leaf r # entries"
      and o: "ok = (last_run_success r = PBool True \<and> ok2)"
    from Leaf.IH[OF b] n o show ?thesis by auto
  qed
qed

lemma run_tasks_total:
  assumes "\<And>t r w. \<exists>r' w'. run1 t r w = (Inr r', w')"
  shows "\<exists>ok new_log st'. run_tasks run1 label path prior i nodes st = (Inr (ok, new_log), st')"
proof (induction nodes arbitrary: path prior i st rule: tree_list_induct)
  case Nil
  show ?case by auto
next
  case (Group xs rest)
  obtain ok1 sub_log st1 where
    a: "run_tasks run1 label (path @ [i]) (sub_prior (prev_entry prior i)) 0 xs st
          = (Inr (ok1, sub_log), st1)"
    using Group.IH(1) by blast
  obtain ok2 entries st2 where
    b: "run_tasks run1 label path prior (Suc i) rest st1 = (Inr (ok2, entries), st2)"
    using Group.IH(2) by blast
  from a b show ?case by simp
next
  case (Leaf x rest)
  obtain r w1 where
    a: "run1 x (prior_record (prev_entry prior i)
                (TaskLog_init (index_of (path @ [i])) (label x))) (rworld st) = (Inr r, w1)"
    using assms by blast
  obtain ok2 entries st2 where
    b: "run_tasks run1 label path prior (Suc i) rest
          \<lparr>rworld = w1, attempted = attempted st @ [path @ [i]]\<rparr> = (Inr (ok2, entries), st2)"
    using Leaf.IH by blast
  from a b show ?case by simp
qed

lemma usable_Group: "usable (Group cs) e = sub_prior e"
  by (cases e rule: sub_prior.cases) simp_all

lemma prior_record_usable:
  "prior_record e fresh = (case usable (Leaf t) e of Some (Leaf r) \<Rightarrow> r | _ \<Rightarrow> fresh)"
  by (cases e rule: sub_prior.cases) (simp_all split: tree.splits option.splits)

lemma run_tasks_cong:
  "(\<And>j. j < length nodes \<Longrightarrow>
       usable (nodes ! j) (prev_entry prior (i + j)) = usable (nodes ! j) (prev_entry prior' (i + j)))
   \<Longrightarrow> run_tasks run1 label path prior i nodes st = run_tasks run1 label path prior' i nodes st"
proof (induction nodes arbitrary: i st rule: tree_list_induct)
  case Nil
  show ?case by simp
next
  case (Group xs rest)
  from Group.prems[of 0] have h: "sub_prior (prev_entry prior i) = sub_prior (prev_entry prior' i)"
    by (simp add: usable_Group)
  have "\<And>j. j < length rest \<Longrightarrow>
       usable (rest ! j) (prev_entry prior (Suc i + j)) = usable (rest ! j) (prev_entry prior' (Suc i + j))"
    using Group.prems[of "Suc j" for j] by simp
  from Group.IH(2)[OF this] h show ?case by (auto split: prod.splits sum.splits)
next
  case (Leaf x rest)
  from Leaf.prems[of 0] have h: "\<And>fresh. prior_record (prev_entry prior i) fresh
                                    = prior_record (prev_entry prior' i) fresh"
    by (simp add: prior_record_usable[where t = x])
  have "\<And>j. j < length rest \<Longrightarrow>
       usable (rest ! j) (prev_entry prior (Suc i + j)) = usable (rest ! j) (prev_entry prior' (Suc i + j))"
    using Leaf.prems[of "Suc j" for j] by simp
  from Leaf.IH[OF this] h show ?case by (auto split: prod.splits sum.splits)
qed

lemma leaf_positions_form:
  "p \<in> set (leaf_positions path i nodes) \<Longrightarrow> \<exists>j q. p = path @ j # q \<and> i \<le> j"
proof (induction nodes arbitrary: path i rule: tree_list_induct)
  case Nil
  then show ?case by simp
next
  case (Group xs rest)
  from Group.prems consider "p \<in> set (leaf_positions (path @ [i]) 0 xs)"
    | "p \<in> set (leaf_positions path (Suc i) rest)" by auto
  then show ?case
  proof cases
    case 1
    from Group.IH(1)[OF 1] show ?thesis by auto
  next
    case 2
    from Group.IH(2)[OF 2] show ?thesis by (metis Suc_leD)
  qed
next
  case (Leaf x rest)
  from Leaf.prems consider "p = path @ [i]" | "p \<in> set (leaf_positions path (Suc i) rest)" by auto
  then show ?case
  proof cases
    case 1
    then show ?thesis by auto
  next
    case 2
    from Leaf.IH[OF 2] show ?thesis by (metis Suc_leD)
  qed
qed

lemma leaf_positions_distinct: "distinct (leaf_positions path i nodes)"
proof (induction nodes arbitrary: path i rule: tree_list_induct)
  case Nil
  show ?case by simp
next
  case (Group xs rest)
  have "set (leaf_positions (path @ [i]) 0 xs) \<inter> set (leaf_positions path (Suc i) rest) = {}"
  proof (rule ccontr)
    assume "\<not> ?thesis"
    then obtain p where a: "p \<in> set (leaf_positions (path @ [i]) 0 xs)"
      and b: "p \<in> set (leaf_positions path (Suc i) rest)" by auto
    from leaf_positions_form[OF a] obtain j q where "p = (path @ [i]) @ j # q" by auto
    moreover from leaf_positions_form[OF b] obtain j' q' where "p = path @ j' # q'" "Suc i \<le> j'"
      by auto
    ultimately show False by auto
  qed
  with Group.IH show ?case by simp
next
  case (Leaf x rest)
  have "path @ [i] \<notin> set (leaf_positions path (Suc i) rest)"
  proof
    assume "path @ [i] \<in> set (leaf_positions path (Suc i) rest)"
    from leaf_positions_form[OF this] show False by auto
  qed
  with Leaf.IH show ?case by simp
qed

lemma leaf_positions_length:
  "length (leaf_positions path i nodes) = length (concat (map leaves nodes))"
  by (induction nodes arbitrary: path i rule: tree_list_induct) simp_all


text \<open>
  C7. Whenever the runner returns, the new log has the shape of the current tree: at every
  nesting level as many entries as the tree has nodes, a record for each leaf and a
  sequence for each group, whatever the prior log is (absent, a record, a shorter or
  longer sequence, entries of the other shape). The result depends on the prior log only
  through the entries at the positions of the current nodes that have the node's shape:
  entries beyond the tree's length and entries of the other shape are discarded. The
  runner returns whenever no leaf's run raises.
\<close>

theorem run_tasks_prunes:
  "(\<forall>ok new_log st'.
      run_tasks run1 label path prior i nodes st = (Inr (ok, new_log), st')
      \<longrightarrow> list_all2 same_shape nodes new_log) \<and>
   ((\<forall>j < length nodes.
       usable (nodes ! j) (prev_entry prior' (i + j)) = usable (nodes ! j) (prev_entry prior (i + j)))
      \<longrightarrow> run_tasks run1 label path prior' i nodes st = run_tasks run1 label path prior i nodes st) \<and>
   ((\<forall>t r w. \<exists>r' w'. run1 t r w = (Inr r', w'))
      \<longrightarrow> (\<exists>ok new_log st'. run_tasks run1 label path prior i nodes st = (Inr (ok, new_log), st')))"
  using run_tasks_shape[of run1 label path prior i nodes st]
    run_tasks_cong[of nodes prior' i prior run1 label path st]
    run_tasks_total[of run1 label path prior i nodes st]
  by blast

theorem run_tasks_prunes_witness:
  "run_tree MockTask_run MockTask_label scenario_tree
     (Some (Group [Leaf (mock_log True ''Task0''), Leaf (mock_log True ''Task1''),
                   Leaf (mock_log True ''Task2''), Leaf (mock_log True ''Task3'')])) ()
     = (Inr (False, scenario_log), \<lparr>rworld = (), attempted = [[0], [1, 0], [1, 1], [2]]\<rparr>) \<and>
   list_all2 same_shape scenario_tree scenario_log \<and>
   length scenario_log = length scenario_tree \<and>
   run_tree MockTask_run MockTask_label scenario_tree
     (Some (Group [Leaf (mock_log True ''Task0''), Leaf (mock_log False ''Other''),
                   Leaf (mock_log True ''Task2'')])) ()
     = run_tree MockTask_run MockTask_label scenario_tree
     (Some (Group [Leaf (mock_log True ''Task0''), Leaf (mock_log True ''Task1''),
                   Leaf (mock_log True ''Task2''), Leaf (mock_log True ''Task3'')])) ()"
proof -
  let ?prior = "Some (Group [Leaf (mock_log True ''Task0''), Leaf (mock_log True ''Task1''),
                   Leaf (mock_log True ''Task2''), Leaf (mock_log True ''Task3'')])"
  let ?prior' = "Some (Group [Leaf (mock_log True ''Task0''), Leaf (mock_log False ''Other''),
                   Leaf (mock_log True ''Task2'')])"
  let ?st = "\<lparr>rworld = (), attempted = []\<rparr>"
  have e: "run_tasks MockTask_run MockTask_label [] ?prior 0 scenario_tree ?st
     = (Inr (False, scenario_log), \<lparr>rworld = (), attempted = [[0], [1, 0], [1, 1], [2]]\<rparr>)"
    by (simp add: scenario_tree_def scenario_log_def MockTask_run_def mock_log_def)
  have u: "\<forall>j < length scenario_tree.
       usable (scenario_tree ! j) (prev_entry ?prior' (0 + j))
         = usable (scenario_tree ! j) (prev_entry ?prior (0 + j))"
    by (simp add: scenario_tree_def less_Suc_eq all_conj_distrib)
  note t = run_tasks_prunes[of MockTask_run MockTask_label "[]" ?prior 0 scenario_tree ?st ?prior']
  from t e have s: "list_all2 same_shape scenario_tree scenario_log" by blast
  from t u have c: "run_tasks MockTask_run MockTask_label [] ?prior' 0 scenario_tree ?st
                      = run_tasks MockTask_run MockTask_label [] ?prior 0 scenario_tree ?st"
    by blast
  from s have l: "length scenario_log = length scenario_tree"
    by (simp add: list_all2_lengthD)
  from e s l c show ?thesis by (simp add: run_tree_def)
qed

lemma run_leaves_append:
  "run_leaves run1 (xs @ ys) w =
     (case run_leaves run1 xs w of
        (Inl e, w1) \<Rightarrow> (Inl e, w1)
      | (Inr rs, w1) \<Rightarrow>
          (case run_leaves run1 ys w1 of
             (Inl e, w2) \<Rightarrow> (Inl e, w2)
           | (Inr rs', w2) \<Rightarrow> (Inr (rs @ rs'), w2)))"
  by (induction xs arbitrary: w) (auto split: prod.splits sum.splits)

lemma leaf_jobs_tasks: "map fst (leaf_jobs label path prior i nodes) = concat (map leaves nodes)"
  by (induction nodes arbitrary: path prior i rule: tree_list_induct) simp_all

lemma run_tasks_run_leaves:
  "run_leaves run1 (leaf_jobs label path prior i nodes) (rworld st) =
     (case run_tasks run1 label path prior i nodes st of
        (Inl e, st') \<Rightarrow> (Inl e, rworld st')
      | (Inr (ok, new_log), st') \<Rightarrow> (Inr (concat (map leaves new_log)), rworld st'))"
proof (induction nodes arbitrary: path prior i st rule: tree_list_induct)
  case Nil
  show ?case by simp
next
  case (Group xs rest)
  show ?case
    by (simp add: run_leaves_append Group.IH split: prod.splits sum.splits)
next
  case (Leaf x rest)
  obtain res w1 where r: "run1 x (prior_record (prev_entry prior i)
            (TaskLog_init (index_of (path @ [i])) (label x))) (rworld st) = (res, w1)"
    by (cases "run1 x (prior_record (prev_entry prior i)
            (TaskLog_init (index_of (path @ [i])) (label x))) (rworld st)")
  show ?case
  proof (cases res)
    case (Inl e)
    with r show ?thesis by simp
  next
    case (Inr rec)
    from Leaf.IH[of path prior "Suc i" "\<lparr>rworld = w1, attempted = attempted st @ [path @ [i]]\<rparr>"]
    show ?thesis using r Inr by (simp split: prod.splits sum.splits)
  qed
qed

text \<open>
  C8. Whenever the runner returns, the records at the leaves of the new log are, from
  left to right, the results of invoking the run of every leaf task of the tree once, in
  that order, each with the prior record of its position and on the world that the runs
  before it left (\<open>run_leaves\<close> over \<open>leaf_jobs\<close>), and the new log has the shape
  of the tree: no task is skipped because an earlier one was unsuccessful. The final
  world is the world after the last run; when the runner ends with an exception, it is
  the exception of the first run that raises. The overall success is false exactly when
  some leaf of the new log has a \<open>last_run_success\<close> other than \<open>True\<close>. The runner
  returns whenever no leaf's run raises.
\<close>

theorem run_tasks_attempts_all:
  "(\<forall>ok new_log st'.
      run_tasks run1 label path prior i nodes st = (Inr (ok, new_log), st')
      \<longrightarrow> run_leaves run1 (leaf_jobs label path prior i nodes) (rworld st)
            = (Inr (concat (map leaves new_log)), rworld st') \<and>
          list_all2 same_shape nodes new_log \<and>
          attempted st' = attempted st @ leaf_positions path i nodes \<and>
          (\<not> ok) = (\<exists>r \<in> set (concat (map leaves new_log)). last_run_success r \<noteq> PBool True)) \<and>
   (\<forall>e st'.
      run_tasks run1 label path prior i nodes st = (Inl e, st')
      \<longrightarrow> run_leaves run1 (leaf_jobs label path prior i nodes) (rworld st) = (Inl e, rworld st')) \<and>
   map fst (leaf_jobs label path prior i nodes) = concat (map leaves nodes) \<and>
   distinct (leaf_positions path i nodes) \<and>
   length (leaf_positions path i nodes) = length (concat (map leaves nodes)) \<and>
   ((\<forall>t r w. \<exists>r' w'. run1 t r w = (Inr r', w'))
      \<longrightarrow> (\<exists>ok new_log st'. run_tasks run1 label path prior i nodes st = (Inr (ok, new_log), st')))"
proof -
  note rl = run_tasks_run_leaves[of run1 label path prior i nodes st]
  have a: "\<And>ok new_log st'. run_tasks run1 label path prior i nodes st = (Inr (ok, new_log), st')
      \<Longrightarrow> run_leaves run1 (leaf_jobs label path prior i nodes) (rworld st)
            = (Inr (concat (map leaves new_log)), rworld st')"
    using rl by simp
  have b: "\<And>e st'. run_tasks run1 label path prior i nodes st = (Inl e, st')
      \<Longrightarrow> run_leaves run1 (leaf_jobs label path prior i nodes) (rworld st) = (Inl e, rworld st')"
    using rl by simp
  have c: "\<And>ok new_log st'. run_tasks run1 label path prior i nodes st = (Inr (ok, new_log), st')
      \<Longrightarrow> (\<not> ok) = (\<exists>r \<in> set (concat (map leaves new_log)). last_run_success r \<noteq> PBool True)"
    using run_tasks_success[of run1 label path prior i nodes st] by blast
  show ?thesis
    using a b c run_tasks_shape[of run1 label path prior i nodes st]
      run_tasks_attempted[of run1 label path prior i nodes st]
      run_tasks_total[of run1 label path prior i nodes st]
      leaf_positions_distinct[of path i nodes] leaf_positions_length[of path i nodes]
      leaf_jobs_tasks[of label path prior i nodes]
    by blast
qed

theorem run_tasks_attempts_all_witness:
  "run_tree CountTask_run MockTask_label scenario_tree None 0
     = (Inr (False,
             [Leaf (counted [0] ''Task0'' True 0),
              Group [Leaf (counted [1, 0] ''Task1a'' True 1),
                     Leaf (counted [1, 1] ''Task1b'' False 2)],
              Leaf (counted [2] ''Task2'' True 3)]),
        \<lparr>rworld = 4, attempted = [[0], [1, 0], [1, 1], [2]]\<rparr>) \<and>
   run_leaves CountTask_run (leaf_jobs MockTask_label [] None 0 scenario_tree) 0
     = (Inr [counted [0] ''Task0'' True 0, counted [1, 0] ''Task1a'' True 1,
             counted [1, 1] ''Task1b'' False 2, counted [2] ''Task2'' True 3], 4) \<and>
   map fst (leaf_jobs MockTask_label [] None 0 scenario_tree)
     = [(True, ''Task0''), (True, ''Task1a''), (False, ''Task1b''), (True, ''Task2'')] \<and>
   leaf_positions [] 0 scenario_tree = [[0], [1, 0], [1, 1], [2]] \<and>
   last_run_success (counted [1, 1] ''Task1b'' False 2) \<noteq> PBool True"
proof -
  let ?st = "\<lparr>rworld = 0 :: nat, attempted = []\<rparr>"
  let ?log = "[Leaf (counted [0] ''Task0'' True 0),
              Group [Leaf (counted [1, 0] ''Task1a'' True 1),
                     Leaf (counted [1, 1] ''Task1b'' False 2)],
              Leaf (counted [2] ''Task2'' True 3)]"
  let ?st' = "\<lparr>rworld = 4 :: nat, attempted = [[0], [1, 0], [1, 1], [2]]\<rparr>"
  note t = run_tasks_attempts_all[of CountTask_run MockTask_label "[]" None 0 scenario_tree ?st]
  have e: "run_tasks CountTask_run MockTask_label [] None 0 scenario_tree ?st
     = (Inr (False, ?log), ?st')"
    by (simp add: scenario_tree_def CountTask_run_def counted_def MockTask_label_def
        TaskLog_init_def index_of_def)
  from t e have l: "run_leaves CountTask_run (leaf_jobs MockTask_label [] None 0 scenario_tree)
      (rworld ?st) = (Inr (concat (map leaves ?log)), rworld ?st')"
    by blast
  from t e have a: "attempted ?st' = attempted ?st @ leaf_positions [] 0 scenario_tree"
    by blast
  from t have j: "map fst (leaf_jobs MockTask_label [] None 0 scenario_tree)
                    = concat (map leaves scenario_tree)"
    by blast
  have f: "last_run_success (counted [1, 1] ''Task1b'' False 2) \<noteq> PBool True"
    by (simp add: counted_def)
  from e l a j f show ?thesis by (simp add: run_tree_def scenario_tree_def)
qed

text \<open>
  The tests of \<open>_run_tasks\<close> in tests/tests_simple.py build their records without the
  index that \<open>TaskLog\<close> requires, and where a task fails they expect the tasks after it
  not to be run: \<open>test_run_tasks_inherent_fail\<close> expects the third record to stay as in
  the prior log. The algorithm of the spec, on the tree and the prior log of that test,
  runs all four tasks and records both failures.
\<close>

lemma run_tree_inherent_fail:
  "run_tree MockTask_run MockTask_label
     [Leaf (True, ''0''), Leaf (False, ''1''), Leaf (False, ''2''), Leaf (True, ''3'')]
     (Some (Group [Leaf (mock_log True ''0''), Leaf (mock_log True ''1''),
                   Leaf (mock_log True ''2''), Leaf (mock_log True ''3'')])) ()
   = (Inr (False, [Leaf (mock_log True ''0''), Leaf (mock_log False ''1''),
                   Leaf (mock_log False ''2''), Leaf (mock_log True ''3'')]),
      \<lparr>rworld = (), attempted = [[0], [1], [2], [3]]\<rparr>)"
  by (simp add: run_tree_def MockTask_run_def mock_log_def)

end
